theory Spec2Isabelle
  imports Complex_Main "HOL-Library.Multiset" "HOL-Library.Sublist"
begin

section \<open>Numbers\<close>

text \<open>
  Numbers are rationals (type \<open>rat\<close>), or \<open>int\<close> where every value is an integer (scores
  after rounding, counters, millisecond timestamps). \<open>Math.round\<close> rounds halves upwards.

  The source computes in IEEE 754 doubles. Where it computes with measured data (time
  stamps, pointer coordinates) and the result decides a branch, the model rounds every
  operation as a double does: \<open>fl x\<close> is the double nearest to \<open>x\<close>, ties going to the even
  significand. Overflow and subnormal numbers are not modelled; the numbers in question
  lie far inside the range of doubles. The sums of score points are exact in the model
  and in the source alike: \<open>25 * 0.9\<close> and \<open>25 * 0.7\<close> are the doubles 22.5 and 17.5, all
  other points are integers, and the weighted sum of two integer scores is a multiple of
  0.2 up to rounding and so never close to a half.
\<close>

definition js_round :: "rat \<Rightarrow> int" where
  "js_round x = \<lfloor>x + 1 / 2\<rfloor>"

text \<open>The number of binary digits of a positive integer.\<close>

function bit_length :: "int \<Rightarrow> int" where
  "bit_length n = (if n \<le> 0 then 0 else 1 + bit_length (n div 2))"
  by pat_completeness auto
termination
  by (relation "measure nat") auto

declare bit_length.simps [simp del]

definition pow2 :: "int \<Rightarrow> rat" where
  "pow2 k = (if 0 \<le> k then 2 ^ nat k else 1 / 2 ^ nat (- k))"

text \<open>For \<open>x > 0\<close>, the exponent \<open>e\<close> with \<open>pow2 e \<le> x < pow2 (e + 1)\<close>: the quotient of a
  numerator of \<open>m\<close> digits and a denominator of \<open>n\<close> digits lies between \<open>pow2 (m - n - 1)\<close>
  and \<open>pow2 (m - n + 1)\<close>.\<close>

definition binary_exponent :: "rat \<Rightarrow> int" where
  "binary_exponent x =
     (case quotient_of x of (p, q) \<Rightarrow>
        (let d = bit_length p - bit_length q
         in if pow2 d \<le> x then d else d - 1))"

definition round_half_even :: "rat \<Rightarrow> int" where
  "round_half_even q =
     (let f = \<lfloor>q\<rfloor>; r = q - of_int f
      in if r < 1 / 2 then f else if 1 / 2 < r then f + 1 else if even f then f else f + 1)"

text \<open>Rounding to a significand of 53 binary digits.\<close>

definition fl :: "rat \<Rightarrow> rat" where
  "fl x =
     (if x = 0 then 0
      else (let e = binary_exponent \<bar>x\<bar> - 52
            in of_int (round_half_even (x / pow2 e)) * pow2 e))"

definition fadd :: "rat \<Rightarrow> rat \<Rightarrow> rat" where
  "fadd a b = fl (a + b)"

definition fsub :: "rat \<Rightarrow> rat \<Rightarrow> rat" where
  "fsub a b = fl (a - b)"

definition fmul :: "rat \<Rightarrow> rat \<Rightarrow> rat" where
  "fmul a b = fl (a * b)"

definition fdiv :: "rat \<Rightarrow> rat \<Rightarrow> rat" where
  "fdiv a b = fl (a / b)"

text \<open>The differences \<open>ts[i] - ts[i - 1]\<close> for \<open>i = 1 .. length - 1\<close>, as the loops that
  fill \<open>intervals\<close> compute them.\<close>

fun intervals :: "rat list \<Rightarrow> rat list" where
  "intervals (a # b # ts) = fsub b a # intervals (b # ts)"
| "intervals _ = []"

text \<open>\<open>xs.reduce((a, b) => a + b, 0) / xs.length\<close>\<close>

definition average :: "rat list \<Rightarrow> rat" where
  "average xs = fdiv (foldl fadd 0 xs) (of_nat (length xs))"

record mouse_point =
  mp_x :: rat
  mp_y :: rat
  mp_timestamp :: rat

record keystroke =
  ks_key :: string
  ks_timestamp :: rat

section \<open>Strings\<close>

text \<open>
  The regular expressions of the source are literal words with the flag \<open>i\<close>; such a
  pattern matches when the word occurs somewhere in the text, letters compared without
  case. Only the letters A to Z have a lower-case partner here: in a non-Unicode pattern
  a character outside ASCII never matches an ASCII letter.
\<close>

definition lower_char :: "char \<Rightarrow> char" where
  "lower_char c =
     (if 65 \<le> (of_char c :: nat) \<and> (of_char c :: nat) \<le> 90
      then char_of ((of_char c :: nat) + 32) else c)"

definition toLowerCase :: "string \<Rightarrow> string" where
  "toLowerCase s = map lower_char s"

fun has_substring :: "string \<Rightarrow> string \<Rightarrow> bool" where
  "has_substring [] w = (w = [])"
| "has_substring (c # cs) w = (prefix w (c # cs) \<or> has_substring cs w)"

definition regex_test_i :: "string \<Rightarrow> string \<Rightarrow> bool" where
  "regex_test_i word text = has_substring (toLowerCase text) (toLowerCase word)"

text \<open>\<open>xs.join(sep)\<close>\<close>

fun join :: "string \<Rightarrow> string list \<Rightarrow> string" where
  "join sep [] = []"
| "join sep [x] = x"
| "join sep (x # y # ys) = x @ sep @ join sep (y # ys)"

section \<open>Behavioural analysis: \<open>src/services/botDetection.ts\<close>\<close>

datatype risk = low | medium | high | critical

text \<open>What the source reads from \<open>new UAParser(userAgent).getResult()\<close>: the browser
  name, the operating system name, and \<open>parseFloat\<close> of the browser version (absent when
  there is no version or it does not start with a number). The parser is a library; its
  result is an input of the model.\<close>

record ua_result =
  ua_browser_name :: "string option"
  ua_os_name :: "string option"
  ua_browser_version :: "rat option"

record ua_analysis =
  ua_isBot :: bool
  ua_confidence :: rat
  ua_type :: string

definition botPatterns :: "string list" where
  "botPatterns =
     [''bot'', ''crawl'', ''spider'', ''scrape'', ''curl'', ''wget'',
      ''python'', ''java'', ''php'', ''ruby'', ''go-http'',
      ''headless'', ''phantom'', ''selenium'', ''puppeteer'']"

definition falsy :: "string option \<Rightarrow> bool" where
  "falsy v = (case v of None \<Rightarrow> True | Some s \<Rightarrow> s = [])"

definition analyzeUserAgent :: "ua_result \<Rightarrow> string \<Rightarrow> ua_analysis" where
  "analyzeUserAgent result userAgent =
     (let a0 = (if list_ex (\<lambda>pattern. regex_test_i pattern userAgent) botPatterns
                then \<lparr>ua_isBot = True, ua_confidence = 9 / 10, ua_type = ''Known bot signature''\<rparr>
                else \<lparr>ua_isBot = False, ua_confidence = 0, ua_type = []\<rparr>);
          a1 = (if falsy (ua_browser_name result) \<or> falsy (ua_os_name result)
                then \<lparr>ua_isBot = True, ua_confidence = max (ua_confidence a0) (7 / 10),
                      ua_type = ''Incomplete user agent''\<rparr>
                else a0)
      in (case ua_browser_version result of
            Some v \<Rightarrow> if v < 50 then a1\<lparr>ua_confidence := max (ua_confidence a1) (6 / 10)\<rparr> else a1
          | None \<Rightarrow> a1))"

text \<open>\<open>xs.reduce((sum, x) => sum + Math.pow(x - avg, 2), 0) / xs.length\<close>, with
  \<open>Math.pow(y, 2)\<close> taken as the rounded product \<open>y * y\<close>.\<close>

definition variance_about :: "rat \<Rightarrow> rat list \<Rightarrow> rat" where
  "variance_about avg xs =
     fdiv (foldl (\<lambda>sum x. fadd sum (fmul (fsub x avg) (fsub x avg))) 0 xs) (of_nat (length xs))"

definition variance :: "rat list \<Rightarrow> rat" where
  "variance xs = variance_about (average xs) xs"

text \<open>
  \<open>Math.sqrt(variance) < 10\<close>: the square root is rounded to the nearest double, and the
  double below 10 is \<open>10 - pow2 (- 49)\<close>. The rounded root is below 10 exactly when the root
  is below the midpoint \<open>10 - pow2 (- 50)\<close> (the midpoint itself rounds to 10, whose
  significand is even), that is when the variance is below the square of the midpoint.
\<close>

definition stdDev_below_10 :: "rat \<Rightarrow> bool" where
  "stdDev_below_10 v = (v < (10 - 1 / 2 ^ 50)\<^sup>2)"

record timing_analysis =
  ta_suspicious :: bool
  ta_reason :: string

definition analyzeTimingPatterns :: "rat list \<Rightarrow> timing_analysis" where
  "analyzeTimingPatterns requestTimings =
     (if length requestTimings < 3
      then \<lparr>ta_suspicious = False, ta_reason = ''Insufficient data''\<rparr>
      else
        (let ivs = intervals requestTimings; avgInterval = average ivs
         in if stdDev_below_10 (variance_about avgInterval ivs) \<and> length ivs > 5
            then \<lparr>ta_suspicious = True, ta_reason = ''Uniform timing pattern detected''\<rparr>
            else if avgInterval < 100
            then \<lparr>ta_suspicious = True, ta_reason = ''Requests too fast for human''\<rparr>
            else \<lparr>ta_suspicious = False, ta_reason = ''Normal timing pattern''\<rparr>))"

record bot_data =
  bd_userAgent :: string
  bd_fingerprint :: string
  bd_ipAddress :: string
  bd_mouseMovements :: "mouse_point list option"
  bd_keystrokes :: "keystroke list option"
  bd_requestTimings :: "rat list option"
  bd_previousChallenges :: "int option"

record bot_analysis =
  ba_score :: int
  ba_signals :: "string list"
  ba_riskLevel :: risk
  ba_reasons :: "string list"

text \<open>The running triple \<open>(score, signals, reasons)\<close> of \<open>analyzeBotBehavior\<close>; each of its
  six numbered blocks is a function that extends it.\<close>

type_synonym tally = "rat \<times> string list \<times> string list"

definition collinear :: "mouse_point \<Rightarrow> mouse_point \<Rightarrow> mouse_point \<Rightarrow> bool" where
  "collinear p0 p1 p2 =
     (let dx1 = fsub (mp_x p1) (mp_x p0); dy1 = fsub (mp_y p1) (mp_y p0);
          dx2 = fsub (mp_x p2) (mp_x p1); dy2 = fsub (mp_y p2) (mp_y p1)
      in \<bar>fsub (fmul dx1 dy2) (fmul dy1 dx2)\<bar> < 1)"

text \<open>The loop \<open>for (i = 2; i < movements.length; i++)\<close>: the number of indices whose
  triple \<open>movements[i - 2], movements[i - 1], movements[i]\<close> is collinear.\<close>

fun straightLines :: "mouse_point list \<Rightarrow> nat" where
  "straightLines (p0 # p1 # p2 # ps) =
     (if collinear p0 p1 p2 then 1 else 0) + straightLines (p1 # p2 # ps)"
| "straightLines _ = 0"

definition user_agent_block :: "ua_analysis \<Rightarrow> tally \<Rightarrow> tally" where
  "user_agent_block uaAnalysis t =
     (case t of (score, signals, reasons) \<Rightarrow>
        if ua_isBot uaAnalysis
        then (score + 25 * ua_confidence uaAnalysis, signals @ [''suspicious_ua''],
              reasons @ [''User agent: '' @ ua_type uaAnalysis])
        else t)"

definition mouse_block :: "mouse_point list option \<Rightarrow> tally \<Rightarrow> tally" where
  "mouse_block mouseMovements t =
     (case t of (score, signals, reasons) \<Rightarrow>
        (case mouseMovements of
           None \<Rightarrow> t
         | Some movements \<Rightarrow>
             if length movements = 0
             then (score + 20, signals @ [''no_mouse_movement''],
                   reasons @ [''No mouse movement detected''])
             else if length movements < 5
             then (score + 15, signals @ [''minimal_mouse_movement''],
                   reasons @ [''Minimal mouse activity''])
             else if of_nat (straightLines movements) > fmul (of_nat (length movements)) (fl (7 / 10))
             then (score + 10, signals @ [''linear_mouse_movement''],
                   reasons @ [''Mouse movements too linear''])
             else t))"

definition keystroke_block :: "keystroke list option \<Rightarrow> tally \<Rightarrow> tally" where
  "keystroke_block keystrokes t =
     (case t of (score, signals, reasons) \<Rightarrow>
        (case keystrokes of
           None \<Rightarrow> t
         | Some ks \<Rightarrow>
             if length ks = 0
             then (score + 10, signals @ [''no_keystrokes''], reasons)
             else
               (let ivs = intervals (map ks_timestamp ks)
                in if length ivs > 0 \<and> variance ivs < 100
                   then (score + 15, signals @ [''uniform_keystrokes''],
                         reasons @ [''Keystroke timing too uniform''])
                   else t)))"

definition timing_block :: "rat list option \<Rightarrow> tally \<Rightarrow> tally" where
  "timing_block requestTimings t =
     (case t of (score, signals, reasons) \<Rightarrow>
        (case requestTimings of
           None \<Rightarrow> t
         | Some ts \<Rightarrow>
             if length ts > 2 \<and> ta_suspicious (analyzeTimingPatterns ts)
             then (score + 15, signals @ [''suspicious_timing''],
                   reasons @ [ta_reason (analyzeTimingPatterns ts)])
             else t))"

definition history_block :: "int option \<Rightarrow> tally \<Rightarrow> tally" where
  "history_block previousChallenges t =
     (case t of (score, signals, reasons) \<Rightarrow>
        (case previousChallenges of
           None \<Rightarrow> t
         | Some n \<Rightarrow>
             if n > 10
             then (score + 15, signals @ [''excessive_challenges''],
                   reasons @ [''Too many challenge attempts''])
             else if n > 5
             then (score + 8, signals @ [''high_challenge_count''], reasons)
             else t))"

text \<open>The argument \<open>geo\<close> is the country of \<open>geoip.lookup(data.ipAddress)\<close>, \<open>None\<close> when the
  lookup finds nothing.\<close>

definition geo_block :: "string option \<Rightarrow> tally \<Rightarrow> tally" where
  "geo_block geo t =
     (case t of (score, signals, reasons) \<Rightarrow>
        (case geo of
           None \<Rightarrow> (score + 5, signals @ [''unknown_geolocation''],
                    reasons @ [''IP geolocation unavailable''])
         | Some _ \<Rightarrow> t))"

definition risk_of_score :: "rat \<Rightarrow> risk" where
  "risk_of_score score =
     (if score \<ge> 75 then critical
      else if score \<ge> 50 then high
      else if score \<ge> 25 then medium
      else low)"

definition bot_tally :: "ua_result \<Rightarrow> string option \<Rightarrow> bot_data \<Rightarrow> tally" where
  "bot_tally parsed geo data =
     geo_block geo
       (history_block (bd_previousChallenges data)
         (timing_block (bd_requestTimings data)
           (keystroke_block (bd_keystrokes data)
             (mouse_block (bd_mouseMovements data)
               (user_agent_block (analyzeUserAgent parsed (bd_userAgent data)) (0, [], []))))))"

definition analyzeBotBehavior :: "ua_result \<Rightarrow> string option \<Rightarrow> bot_data \<Rightarrow> bot_analysis" where
  "analyzeBotBehavior parsed geo data =
     (case bot_tally parsed geo data of (score, signals, reasons) \<Rightarrow>
        \<lparr>ba_score = min 100 (js_round score), ba_signals = signals,
         ba_riskLevel = risk_of_score score, ba_reasons = reasons\<rparr>)"

section \<open>The cache: \<open>redisClient\<close> of \<open>src/config/database.ts\<close>\<close>

text \<open>
  The cache is one in-memory \<open>Map\<close> from key strings to items \<open>{value, expiry}\<close>. Its keys
  fall into families with different leading words, so no key of one family is a key of
  another: \<open>ratelimit:\<close> and \<open>attack:\<close> hold counters, \<open>blacklist:\<close> holds the flag \<open>'1'\<close>,
  \<open>ip:analysis:\<close> holds the JSON text of an IP analysis. The model keeps one map per kind
  of value, each keyed by the full key string, and the operations are the same on all of
  them. Times are milliseconds since the epoch, as \<open>Date.now()\<close> returns them.
\<close>

record 'v cache_item =
  ci_value :: 'v
  ci_expiry :: "int option"

type_synonym 'v store = "string \<rightharpoonup> 'v cache_item"

text \<open>\<open>item.expiry && item.expiry < Date.now()\<close>: a missing expiry and the expiry 0
  are both falsy.\<close>

definition expired :: "int \<Rightarrow> 'v cache_item \<Rightarrow> bool" where
  "expired now item = (case ci_expiry item of None \<Rightarrow> False | Some e \<Rightarrow> e \<noteq> 0 \<and> e < now)"

definition incr :: "int store \<Rightarrow> string \<Rightarrow> int \<times> int store" where
  "incr c key =
     (let current = c key;
          newValue = (case current of None \<Rightarrow> 0 | Some item \<Rightarrow> ci_value item) + 1
      in (newValue,
          c(key \<mapsto> \<lparr>ci_value = newValue,
                     ci_expiry = (case current of None \<Rightarrow> None | Some item \<Rightarrow> ci_expiry item)\<rparr>)))"

definition expire :: "int \<Rightarrow> 'v store \<Rightarrow> string \<Rightarrow> int \<Rightarrow> 'v store" where
  "expire now c key seconds =
     (case c key of
        Some current \<Rightarrow> c(key \<mapsto> \<lparr>ci_value = ci_value current, ci_expiry = Some (now + seconds * 1000)\<rparr>)
      | None \<Rightarrow> c)"

definition setEx :: "int \<Rightarrow> 'v store \<Rightarrow> string \<Rightarrow> int \<Rightarrow> 'v \<Rightarrow> 'v store" where
  "setEx now c key seconds v = c(key \<mapsto> \<lparr>ci_value = v, ci_expiry = Some (now + seconds * 1000)\<rparr>)"

definition exists_key :: "int \<Rightarrow> 'v store \<Rightarrow> string \<Rightarrow> int \<times> 'v store" where
  "exists_key now c key =
     (case c key of
        None \<Rightarrow> (0, c)
      | Some item \<Rightarrow> if expired now item then (0, c(key := None)) else (1, c))"

definition set_key :: "'v store \<Rightarrow> string \<Rightarrow> 'v \<Rightarrow> 'v store" where
  "set_key c key v = c(key \<mapsto> \<lparr>ci_value = v, ci_expiry = None\<rparr>)"

definition get_key :: "int \<Rightarrow> 'v store \<Rightarrow> string \<Rightarrow> 'v option \<times> 'v store" where
  "get_key now c key =
     (case c key of
        None \<Rightarrow> (None, c)
      | Some item \<Rightarrow> if expired now item then (None, c(key := None)) else (Some (ci_value item), c))"

text \<open>The \<open>setInterval\<close> callback that removes expired items once a minute.\<close>

definition cleanup :: "int \<Rightarrow> 'v store \<Rightarrow> 'v store" where
  "cleanup now c =
     (\<lambda>key. case c key of
               None \<Rightarrow> None
             | Some item \<Rightarrow> if expired now item then None else Some item)"

section \<open>IP reputation: \<open>src/services/ipIntelligence.ts\<close>\<close>

record ip_analysis =
  ia_vpnDetected :: bool
  ia_proxyDetected :: bool
  ia_torDetected :: bool
  ia_abuseScore :: int
  ia_country :: "string option"
  ia_riskLevel :: risk
  ia_reasons :: "string list"

text \<open>The answers of the two external reputation services, \<open>None\<close> when the service is
  not configured or the call fails (the source catches the failure and goes on).\<close>

record ipqs_data =
  q_success :: bool
  q_proxy :: bool
  q_vpn :: bool
  q_tor :: bool
  q_fraud_score :: rat

record ipinfo_privacy =
  p_vpn :: bool
  p_proxy :: bool
  p_hosting :: bool

record vpn_check =
  vc_isVPN :: bool
  vc_isProxy :: bool
  vc_isTor :: bool

definition checkTorExitNode :: "string \<Rightarrow> bool" where
  "checkTorExitNode ipAddress = False"

definition checkVPNDatabase :: "string \<Rightarrow> vpn_check" where
  "checkVPNDatabase ipAddress =
     \<lparr>vc_isVPN = False, vc_isProxy = False, vc_isTor = checkTorExitNode ipAddress\<rparr>"

text \<open>\<open>checkHostingProvider\<close> returns \<open>{isHosting: false}\<close>: the provider name is absent.\<close>

definition checkHostingProvider :: "string \<Rightarrow> bool \<times> string option" where
  "checkHostingProvider ipAddress = (False, None)"

definition add_if :: "bool \<Rightarrow> int \<Rightarrow> string \<Rightarrow> int \<times> string list \<Rightarrow> int \<times> string list" where
  "add_if b points reason sr = (if b then (fst sr + points, snd sr @ [reason]) else sr)"

text \<open>The reason for a high fraud score is the text without the number that the source
  appends to it.\<close>

definition ipqs_block :: "ipqs_data option \<Rightarrow> int \<times> string list \<Rightarrow> int \<times> string list" where
  "ipqs_block resp sr =
     (case resp of
        None \<Rightarrow> sr
      | Some d \<Rightarrow>
          if q_success d
          then add_if (q_fraud_score d > 75) 20 ''High fraud score''
                 (add_if (q_tor d) 30 ''Tor detected by IPQS''
                   (add_if (q_vpn d) 25 ''VPN detected by IPQS''
                     (add_if (q_proxy d) 25 ''Proxy detected by IPQS'' sr)))
          else sr)"

definition ipinfo_block ::
  "ipinfo_privacy option \<Rightarrow> int \<times> string list \<Rightarrow> int \<times> string list" where
  "ipinfo_block resp sr =
     (case resp of
        None \<Rightarrow> sr
      | Some pr \<Rightarrow>
          add_if (p_hosting pr) 15 ''Hosting provider detected by IPInfo''
            (add_if (p_proxy pr) 25 ''Proxy detected by IPInfo''
              (add_if (p_vpn pr) 25 ''VPN detected by IPInfo'' sr)))"

definition checkIPReputation ::
  "ipqs_data option \<Rightarrow> ipinfo_privacy option \<Rightarrow> int \<times> string list" where
  "checkIPReputation ipqs ipinfo = ipinfo_block ipinfo (ipqs_block ipqs (0, []))"

definition risk_of_abuse :: "int \<Rightarrow> risk" where
  "risk_of_abuse abuseScore =
     (if abuseScore \<ge> 75 then critical
      else if abuseScore \<ge> 50 then high
      else if abuseScore \<ge> 25 then medium
      else low)"

text \<open>The part of \<open>analyzeIP\<close> after the cache miss and before the result is cached.\<close>

definition compute_ip_analysis ::
  "string option \<Rightarrow> ipqs_data option \<Rightarrow> ipinfo_privacy option \<Rightarrow> string \<Rightarrow> ip_analysis" where
  "compute_ip_analysis geo ipqs ipinfo ipAddress =
     (let vpnCheck = checkVPNDatabase ipAddress;
          hostingCheck = checkHostingProvider ipAddress;
          sr = add_if (fst hostingCheck) 20
                 (''Hosting provider detected: '' @ (case snd hostingCheck of None \<Rightarrow> ''undefined'' | Some n \<Rightarrow> n))
                 (add_if (vc_isTor vpnCheck) 40 ''IP is Tor exit node''
                   (add_if (vc_isProxy vpnCheck) 25 ''IP matches proxy service''
                     (add_if (vc_isVPN vpnCheck) 30 ''IP matches VPN provider'' (0, []))));
          reputationCheck = checkIPReputation ipqs ipinfo;
          abuseScore = fst sr + fst reputationCheck
      in \<lparr>ia_vpnDetected = vc_isVPN vpnCheck, ia_proxyDetected = vc_isProxy vpnCheck,
          ia_torDetected = vc_isTor vpnCheck, ia_abuseScore = min 100 abuseScore,
          ia_country = geo, ia_riskLevel = risk_of_abuse abuseScore,
          ia_reasons = snd sr @ snd reputationCheck\<rparr>)"

definition analyzeIP ::
  "int \<Rightarrow> string option \<Rightarrow> ipqs_data option \<Rightarrow> ipinfo_privacy option \<Rightarrow>
   ip_analysis store \<Rightarrow> string \<Rightarrow> ip_analysis \<times> ip_analysis store" where
  "analyzeIP now geo ipqs ipinfo cache ipAddress =
     (let cacheKey = ''ip:analysis:'' @ ipAddress
      in case get_key now cache cacheKey of
           (Some cached, cache') \<Rightarrow> (cached, cache')
         | (None, cache') \<Rightarrow>
             (let analysis = compute_ip_analysis geo ipqs ipinfo ipAddress
              in (analysis, setEx now cache' cacheKey 3600 analysis)))"

section \<open>Abuse detection: \<open>src/services/abuseDetection.ts\<close>\<close>

text \<open>Decimal text of a number, as a template string renders it.\<close>

fun show_nat :: "nat \<Rightarrow> string" where
  "show_nat n =
     (if n < 10 then [char_of (48 + n)]
      else show_nat (n div 10) @ [char_of (48 + n mod 10)])"

declare show_nat.simps [simp del]

definition show_int :: "int \<Rightarrow> string" where
  "show_int i = (if i < 0 then CHR ''-'' # show_nat (nat (- i)) else show_nat (nat i))"

text \<open>The upper-case labels \<open>'LOW' | 'MEDIUM' | 'HIGH' | 'CRITICAL'\<close>, used for the severity of
  an abuse result and for the \<open>riskLevel\<close> column of a challenge.\<close>

datatype level = LOW | MEDIUM | HIGH | CRITICAL

datatype blacklist_type = IP | FINGERPRINT | EMAIL

record blacklist_entry =
  bl_type :: blacklist_type
  bl_value :: string
  bl_reason :: string
  bl_permanent :: bool
  bl_expiresAt :: "int option"

record abuse_log =
  al_ipAddress :: string
  al_fingerprint :: "string option"
  al_siteKey :: "string option"
  al_reason :: string
  al_severity :: level
  al_createdAt :: int

text \<open>What abuse detection reads and writes: the counters and the blacklist flags of the
  cache, and the tables \<open>blacklist\<close> and \<open>abuseLog\<close> of the database, each a list of rows.
  Database calls are taken to succeed; the branches that catch a failed call are not
  part of the model.\<close>

record abuse_state =
  as_counters :: "int store"
  as_flags :: "string store"
  as_blacklist :: "blacklist_entry list"
  as_abuseLogs :: "abuse_log list"

record rate_limit =
  rl_limited :: bool
  rl_current :: int
  rl_remaining :: int

record abuse_result =
  ar_blocked :: bool
  ar_reason :: "string option"
  ar_severity :: level
  ar_shouldChallenge :: bool

text \<open>\<open>Math.floor(Date.now() / 1000 / windowSeconds)\<close>: the number of the fixed window that
  holds the time \<open>now\<close>.\<close>

definition time_bucket :: "int \<Rightarrow> int \<Rightarrow> int" where
  "time_bucket windowSeconds now = \<lfloor>(of_int now :: rat) / 1000 / of_int windowSeconds\<rfloor>"

definition rate_limit_key :: "int \<Rightarrow> string \<Rightarrow> int \<Rightarrow> string" where
  "rate_limit_key now identifier windowSeconds =
     ''ratelimit:'' @ identifier @ '':'' @ show_int (time_bucket windowSeconds now)"

text \<open>
  \<open>checkRateLimit\<close> suspends twice, at \<open>await redisClient.incr(key)\<close> and at
  \<open>await redisClient.expire(key, windowSeconds)\<close>. The cache operations contain no
  \<open>await\<close>, so each runs to its end once called. The call therefore has two parts that
  nothing can interrupt: computing the key and incrementing, at the time of the call; and
  setting the expiry and building the result, at the time the call is resumed.
\<close>

definition checkRateLimit_incr ::
  "int \<Rightarrow> int store \<Rightarrow> string \<Rightarrow> int \<Rightarrow> string \<times> int \<times> int store" where
  "checkRateLimit_incr now c identifier windowSeconds =
     (let key = rate_limit_key now identifier windowSeconds
      in case incr c key of (current, c') \<Rightarrow> (key, current, c'))"

definition checkRateLimit_expire ::
  "int \<Rightarrow> int store \<Rightarrow> string \<Rightarrow> int \<Rightarrow> int \<Rightarrow> int \<Rightarrow> rate_limit \<times> int store" where
  "checkRateLimit_expire now c key windowSeconds maxRequests current =
     (\<lparr>rl_limited = current > maxRequests, rl_current = current,
       rl_remaining = max 0 (maxRequests - current)\<rparr>,
      expire now c key windowSeconds)"

text \<open>The whole call when nothing runs in between, as inside one \<open>detectAbusePatterns\<close>.\<close>

definition checkRateLimit ::
  "int \<Rightarrow> int store \<Rightarrow> string \<Rightarrow> int \<Rightarrow> int \<Rightarrow> rate_limit \<times> int store" where
  "checkRateLimit now c identifier windowSeconds maxRequests =
     (case checkRateLimit_incr now c identifier windowSeconds of
        (key, current, c') \<Rightarrow> checkRateLimit_expire now c' key windowSeconds maxRequests current)"

text \<open>The \<open>where\<close> clause of the query in \<open>isBlacklisted\<close>.\<close>

definition blacklist_match :: "int \<Rightarrow> string \<Rightarrow> string \<Rightarrow> blacklist_entry \<Rightarrow> bool" where
  "blacklist_match now ipAddress fingerprint e =
     (((bl_type e = IP \<and> bl_value e = ipAddress)
        \<or> (bl_type e = FINGERPRINT \<and> bl_value e = fingerprint))
      \<and> (bl_permanent e \<or> (case bl_expiresAt e of None \<Rightarrow> False | Some t \<Rightarrow> t > now)))"

definition isBlacklisted :: "int \<Rightarrow> abuse_state \<Rightarrow> string \<Rightarrow> string \<Rightarrow> bool \<times> abuse_state" where
  "isBlacklisted now st ipAddress fingerprint =
     (case exists_key now (as_flags st) (''blacklist:ip:'' @ ipAddress) of
        (ipBlocked, f1) \<Rightarrow>
          (case exists_key now f1 (''blacklist:fp:'' @ fingerprint) of
             (fpBlocked, f2) \<Rightarrow>
               if ipBlocked = 1 \<or> fpBlocked = 1 then (True, st\<lparr>as_flags := f2\<rparr>)
               else (find (blacklist_match now ipAddress fingerprint) (as_blacklist st) \<noteq> None,
                     st\<lparr>as_flags := f2\<rparr>)))"

definition logAbuse :: "int \<Rightarrow> abuse_state \<Rightarrow> string \<Rightarrow> string \<Rightarrow> string option \<Rightarrow>
    string \<Rightarrow> level \<Rightarrow> abuse_state" where
  "logAbuse now st ipAddress fingerprint siteKey reason sev =
     st\<lparr>as_abuseLogs := as_abuseLogs st @
          [\<lparr>al_ipAddress = ipAddress, al_fingerprint = Some fingerprint, al_siteKey = siteKey,
            al_reason = reason, al_severity = sev, al_createdAt = now\<rparr>]\<rparr>"

definition getViolationCount :: "int \<Rightarrow> abuse_state \<Rightarrow> string \<Rightarrow> int \<Rightarrow> nat" where
  "getViolationCount now st ipAddress windowSeconds =
     length (filter (\<lambda>l. al_ipAddress l = ipAddress \<and> al_createdAt l \<ge> now - windowSeconds * 1000)
               (as_abuseLogs st))"

definition getRecentAbuseCount :: "int \<Rightarrow> abuse_state \<Rightarrow> string \<Rightarrow> int \<Rightarrow> nat" where
  "getRecentAbuseCount now st ipAddress windowSeconds =
     length (filter (\<lambda>l. al_ipAddress l = ipAddress \<and> al_createdAt l \<ge> now - windowSeconds * 1000
                        \<and> al_severity l \<in> {HIGH, CRITICAL})
               (as_abuseLogs st))"

text \<open>\<open>prisma.blacklist.upsert\<close> on the unique pair \<open>(type, value)\<close>.\<close>

definition upsert_blacklist ::
  "blacklist_type \<Rightarrow> string \<Rightarrow> (blacklist_entry \<Rightarrow> blacklist_entry) \<Rightarrow> blacklist_entry \<Rightarrow>
   blacklist_entry list \<Rightarrow> blacklist_entry list" where
  "upsert_blacklist ty v upd new rows =
     (if list_ex (\<lambda>e. bl_type e = ty \<and> bl_value e = v) rows
      then map (\<lambda>e. if bl_type e = ty \<and> bl_value e = v then upd e else e) rows
      else rows @ [new])"

definition tempBlockIP :: "int \<Rightarrow> abuse_state \<Rightarrow> string \<Rightarrow> int \<Rightarrow> abuse_state" where
  "tempBlockIP now st ipAddress durationSeconds =
     (let expiresAt = now + durationSeconds * 1000
      in st\<lparr>as_flags := setEx now (as_flags st) (''blacklist:ip:'' @ ipAddress) durationSeconds ''1'',
            as_blacklist := upsert_blacklist IP ipAddress
               (\<lambda>e. e\<lparr>bl_reason := ''Temporary block due to abuse'', bl_expiresAt := Some expiresAt,
                      bl_permanent := False\<rparr>)
               \<lparr>bl_type = IP, bl_value = ipAddress, bl_reason = ''Temporary block due to abuse'',
                bl_permanent = False, bl_expiresAt = Some expiresAt\<rparr>
               (as_blacklist st)\<rparr>)"

definition detectDistributedAttack :: "int \<Rightarrow> int store \<Rightarrow> string \<Rightarrow> (bool \<times> int) \<times> int store" where
  "detectDistributedAttack now c siteKey =
     (let key = ''attack:'' @ siteKey
      in case incr c key of
           (current, c') \<Rightarrow>
             ((current > 100, current), if current = 1 then expire now c' key 10 else c'))"

text \<open>The steps of \<open>detectAbusePatterns\<close> after the blacklist check, one function for each
  numbered check of the source, each handing over to the next when it does not return.\<close>

definition recent_abuse_check :: "int \<Rightarrow> abuse_state \<Rightarrow> string \<Rightarrow> abuse_result \<times> abuse_state" where
  "recent_abuse_check now st ipAddress =
     (if getRecentAbuseCount now st ipAddress 3600 > 10
      then (\<lparr>ar_blocked = True, ar_reason = Some ''Repeated abuse detected'',
             ar_severity = CRITICAL, ar_shouldChallenge = False\<rparr>,
            tempBlockIP now st ipAddress 7200)
      else (\<lparr>ar_blocked = False, ar_reason = None, ar_severity = LOW,
             ar_shouldChallenge = False\<rparr>, st))"

definition distributed_attack_check ::
  "int \<Rightarrow> abuse_state \<Rightarrow> string \<Rightarrow> string option \<Rightarrow> abuse_result \<times> abuse_state" where
  "distributed_attack_check now st ipAddress siteKey =
     (case detectDistributedAttack now (as_counters st)
             (case siteKey of None \<Rightarrow> ''global'' | Some k \<Rightarrow> if k = [] then ''global'' else k) of
        (distributedAttack, c') \<Rightarrow>
          if fst distributedAttack
          then (\<lparr>ar_blocked = False, ar_reason = Some ''Distributed attack detected'',
                 ar_severity = HIGH, ar_shouldChallenge = True\<rparr>, st\<lparr>as_counters := c'\<rparr>)
          else recent_abuse_check now (st\<lparr>as_counters := c'\<rparr>) ipAddress)"

definition fingerprint_rate_check ::
  "int \<Rightarrow> abuse_state \<Rightarrow> string \<Rightarrow> string \<Rightarrow> string option \<Rightarrow> abuse_result \<times> abuse_state" where
  "fingerprint_rate_check now st ipAddress fingerprint siteKey =
     (case checkRateLimit now (as_counters st) (''fp:'' @ fingerprint) 60 20 of
        (fpRateLimit, c') \<Rightarrow>
          if rl_limited fpRateLimit
          then (\<lparr>ar_blocked = False, ar_reason = Some ''Too many requests from same fingerprint'',
                 ar_severity = MEDIUM, ar_shouldChallenge = True\<rparr>,
                logAbuse now (st\<lparr>as_counters := c'\<rparr>) ipAddress fingerprint siteKey
                  ''Fingerprint rate limit exceeded'' MEDIUM)
          else distributed_attack_check now (st\<lparr>as_counters := c'\<rparr>) ipAddress siteKey)"

definition ip_rate_check ::
  "int \<Rightarrow> abuse_state \<Rightarrow> string \<Rightarrow> string \<Rightarrow> string option \<Rightarrow> abuse_result \<times> abuse_state" where
  "ip_rate_check now st ipAddress fingerprint siteKey =
     (case checkRateLimit now (as_counters st) (''ip:'' @ ipAddress) 60 30 of
        (ipRateLimit, c') \<Rightarrow>
          if rl_limited ipRateLimit
          then
            (let st1 = logAbuse now (st\<lparr>as_counters := c'\<rparr>) ipAddress fingerprint siteKey
                         ''Rate limit exceeded'' MEDIUM
             in if getViolationCount now st1 ipAddress 300 > 5
                then (\<lparr>ar_blocked = True, ar_reason = Some ''Multiple rate limit violations'',
                       ar_severity = HIGH, ar_shouldChallenge = False\<rparr>,
                      tempBlockIP now st1 ipAddress 3600)
                else (\<lparr>ar_blocked = False, ar_reason = Some ''Rate limit exceeded'',
                       ar_severity = MEDIUM, ar_shouldChallenge = True\<rparr>, st1))
          else fingerprint_rate_check now (st\<lparr>as_counters := c'\<rparr>) ipAddress fingerprint siteKey)"

definition detectAbusePatterns ::
  "int \<Rightarrow> abuse_state \<Rightarrow> string \<Rightarrow> string \<Rightarrow> string option \<Rightarrow> abuse_result \<times> abuse_state" where
  "detectAbusePatterns now st ipAddress fingerprint siteKey =
     (case isBlacklisted now st ipAddress fingerprint of
        (blacklisted, st') \<Rightarrow>
          if blacklisted
          then (\<lparr>ar_blocked = True, ar_reason = Some ''IP or fingerprint is blacklisted'',
                 ar_severity = CRITICAL, ar_shouldChallenge = False\<rparr>, st')
          else ip_rate_check now st' ipAddress fingerprint siteKey)"

text \<open>\<open>addToBlacklist\<close>: the permanent entry, and the cache key built from the lower-case
  type name.\<close>

definition bl_type_lower :: "blacklist_type \<Rightarrow> string" where
  "bl_type_lower ty = (case ty of IP \<Rightarrow> ''ip'' | FINGERPRINT \<Rightarrow> ''fingerprint'' | EMAIL \<Rightarrow> ''email'')"

definition addToBlacklist :: "abuse_state \<Rightarrow> blacklist_type \<Rightarrow> string \<Rightarrow> string \<Rightarrow> abuse_state" where
  "addToBlacklist st ty v reason =
     st\<lparr>as_blacklist := upsert_blacklist ty v
            (\<lambda>e. e\<lparr>bl_reason := reason, bl_permanent := True\<rparr>)
            \<lparr>bl_type = ty, bl_value = v, bl_reason = reason, bl_permanent = True,
             bl_expiresAt = None\<rparr>
            (as_blacklist st),
        as_flags := set_key (as_flags st) (''blacklist:'' @ bl_type_lower ty @ '':'' @ v) ''1''\<rparr>"

subsection \<open>Concurrent calls of \<open>checkRateLimit\<close>\<close>

text \<open>
  Node.js runs one piece of code at a time and switches only at an \<open>await\<close>. A run of
  several overlapping \<open>checkRateLimit\<close> calls for one identifier is therefore a sequence of
  events: request \<open>r\<close> enters the function at time \<open>t\<close> (\<open>Call r t\<close>: the key and the increment),
  request \<open>r\<close> is resumed at time \<open>t\<close> (\<open>Resume r t\<close>: the expiry and the result), or the
  cache's timer removes expired items (\<open>Cleanup t\<close>). Between its two events a request
  keeps its local \<open>key\<close> and \<open>current\<close>.
\<close>

datatype event = Call nat int | Resume nat int | Cleanup int

record rl_run =
  rr_counters :: "int store"
  rr_pending :: "nat \<rightharpoonup> string \<times> int"
  rr_reports :: "(nat \<times> rate_limit) list"

fun rl_step :: "string \<Rightarrow> int \<Rightarrow> int \<Rightarrow> rl_run \<Rightarrow> event \<Rightarrow> rl_run" where
  "rl_step identifier windowSeconds maxRequests s (Call r t) =
     (case checkRateLimit_incr t (rr_counters s) identifier windowSeconds of
        (key, current, c') \<Rightarrow>
          s\<lparr>rr_counters := c', rr_pending := (rr_pending s)(r \<mapsto> (key, current))\<rparr>)"
| "rl_step identifier windowSeconds maxRequests s (Resume r t) =
     (case rr_pending s r of
        None \<Rightarrow> s
      | Some (key, current) \<Rightarrow>
          (case checkRateLimit_expire t (rr_counters s) key windowSeconds maxRequests current of
             (result, c') \<Rightarrow>
               s\<lparr>rr_counters := c', rr_pending := (rr_pending s)(r := None),
                 rr_reports := rr_reports s @ [(r, result)]\<rparr>))"
| "rl_step identifier windowSeconds maxRequests s (Cleanup t) =
     s\<lparr>rr_counters := cleanup t (rr_counters s)\<rparr>"

definition rl_run_events :: "string \<Rightarrow> int \<Rightarrow> int \<Rightarrow> rl_run \<Rightarrow> event list \<Rightarrow> rl_run" where
  "rl_run_events identifier windowSeconds maxRequests s evs =
     foldl (rl_step identifier windowSeconds maxRequests) s evs"

text \<open>A schedule of whole requests: every request is called once, resumed once, and
  resumed after it was called. The first argument lists the requests called and not yet
  resumed, the second all requests called so far.\<close>

fun whole_requests :: "nat list \<Rightarrow> nat list \<Rightarrow> event list \<Rightarrow> bool" where
  "whole_requests pending seen [] = (pending = [])"
| "whole_requests pending seen (Call r t # evs) =
     (r \<notin> set seen \<and> whole_requests (r # pending) (r # seen) evs)"
| "whole_requests pending seen (Resume r t # evs) =
     (r \<in> set pending \<and> whole_requests (removeAll r pending) seen evs)"
| "whole_requests pending seen (Cleanup t # evs) = whole_requests pending seen evs"

fun event_time :: "event \<Rightarrow> int" where
  "event_time (Call r t) = t"
| "event_time (Resume r t) = t"
| "event_time (Cleanup t) = t"

text \<open>The requests that a schedule calls, in the order of their calls.\<close>

fun calls :: "event list \<Rightarrow> nat list" where
  "calls [] = []"
| "calls (Call r t # evs) = r # calls evs"
| "calls (e # evs) = calls evs"

section \<open>Fingerprints: \<open>BotDetector.generateFingerprint\<close>\<close>

record fingerprint_data =
  fd_fingerprint :: "string option"
  fd_userAgent :: "string option"
  fd_ipAddress :: "string option"
  fd_acceptLanguage :: "string option"
  fd_acceptEncoding :: "string option"
  fd_screenResolution :: "string option"
  fd_timezone :: "int option"
  fd_canvas :: "string option"
  fd_webgl :: "string option"
  fd_fonts :: "string list option"

text \<open>\<open>v || ''\<close>\<close>

definition or_empty :: "string option \<Rightarrow> string" where
  "or_empty v = (case v of None \<Rightarrow> [] | Some s \<Rightarrow> s)"

definition components :: "fingerprint_data \<Rightarrow> string list" where
  "components d =
     [or_empty (fd_userAgent d),
      or_empty (fd_acceptLanguage d),
      or_empty (fd_acceptEncoding d),
      or_empty (fd_screenResolution d),
      (case fd_timezone d of None \<Rightarrow> [] | Some tz \<Rightarrow> show_int tz),
      or_empty (fd_canvas d),
      or_empty (fd_webgl d),
      (case fd_fonts d of None \<Rightarrow> [] | Some fonts \<Rightarrow> join '','' fonts)]"

text \<open>The text that is hashed, \<open>components.join('|')\<close>.\<close>

definition fingerprint_text :: "fingerprint_data \<Rightarrow> string" where
  "fingerprint_text d = join ''|'' (components d)"

text \<open>The first argument stands for SHA-256 followed by hexadecimal encoding, a function
  of the hashed text that the \<open>crypto\<close> library provides.\<close>

definition generateFingerprint :: "(string \<Rightarrow> string) \<Rightarrow> fingerprint_data \<Rightarrow> string" where
  "generateFingerprint sha256_hex d = sha256_hex (fingerprint_text d)"

section \<open>Challenges: \<open>src/routes/challenge.ts\<close>\<close>

record challenge =
  ch_id :: string
  ch_challengeId :: string
  ch_siteKey :: string
  ch_token :: string
  ch_action :: string
  ch_verified :: bool
  ch_score :: int
  ch_riskLevel :: level
  ch_ipAddress :: string
  ch_userAgent :: string
  ch_fingerprint :: string
  ch_botScore :: int
  ch_vpnDetected :: bool
  ch_proxyDetected :: bool
  ch_torDetected :: bool
  ch_abuseScore :: int
  ch_geoCountry :: "string option"
  ch_expiresAt :: int

record api_key =
  ak_id :: string
  ak_userId :: string
  ak_siteKey :: string
  ak_isActive :: bool

record usage =
  us_userId :: string
  us_apiKeyId :: string
  us_endpoint :: string
  us_statusCode :: nat
  us_ipAddress :: string

text \<open>The state the two handlers work on: the state of abuse detection, the cached IP
  analyses, and the tables \<open>challenge\<close>, \<open>apiKey\<close> and \<open>usage\<close>. As before, database calls are
  taken to succeed, so the handlers' answer 500 for a failed call is not part of the
  model.\<close>

record app_state =
  st_abuse :: abuse_state
  st_analyses :: "ip_analysis store"
  st_challenges :: "challenge list"
  st_apiKeys :: "api_key list"
  st_usage :: "usage list"

text \<open>The body of a create request together with the request's metadata: the client
  address that the handler derives from the headers and the socket, and the headers it
  reads. The siteKey is empty when the body has none.\<close>

record create_request =
  cq_siteKey :: string
  cq_action :: "string option"
  cq_fingerprint :: "string option"
  cq_mouseMovements :: "mouse_point list option"
  cq_keystrokes :: "keystroke list option"
  cq_requestTimings :: "rat list option"
  cq_ipAddress :: string
  cq_userAgent :: "string option"
  cq_acceptLanguage :: "string option"
  cq_acceptEncoding :: "string option"

text \<open>What one create call takes from outside the program: the clock, the identifiers and
  the token it draws, the configured lifetime in seconds, and the answers of the
  libraries and services it calls.\<close>

record create_env =
  ce_now :: int
  ce_rowId :: string
  ce_uuid :: string
  ce_randomToken :: string
  ce_expirySeconds :: int
  ce_parsed :: ua_result
  ce_geo :: "string option"
  ce_ipqs :: "ipqs_data option"
  ce_ipinfo :: "ipinfo_privacy option"
  ce_sha256_hex :: "string \<Rightarrow> string"

record created =
  cr_challengeId :: string
  cr_token :: string
  cr_requiresInteraction :: bool
  cr_expiresAt :: int
  cr_score :: int
  cr_riskLevel :: risk

datatype create_response =
    Create_invalid
  | Create_failed nat string
  | Create_blocked "string option" level
  | Create_ok created

definition toUpperCase_risk :: "risk \<Rightarrow> level" where
  "toUpperCase_risk r = (case r of low \<Rightarrow> LOW | medium \<Rightarrow> MEDIUM | high \<Rightarrow> HIGH | critical \<Rightarrow> CRITICAL)"

text \<open>\<open>req.headers['user-agent'] || 'unknown'\<close>\<close>

definition request_userAgent :: "create_request \<Rightarrow> string" where
  "request_userAgent rq = (if falsy (cq_userAgent rq) then ''unknown'' else or_empty (cq_userAgent rq))"

text \<open>\<open>req.body.fingerprint || BotDetector.generateFingerprint({...})\<close>\<close>

definition request_fingerprint :: "create_env \<Rightarrow> create_request \<Rightarrow> string" where
  "request_fingerprint env rq =
     (if falsy (cq_fingerprint rq)
      then generateFingerprint (ce_sha256_hex env)
             \<lparr>fd_fingerprint = None, fd_userAgent = Some (request_userAgent rq),
              fd_ipAddress = Some (cq_ipAddress rq),
              fd_acceptLanguage = cq_acceptLanguage rq, fd_acceptEncoding = cq_acceptEncoding rq,
              fd_screenResolution = None, fd_timezone = None, fd_canvas = None,
              fd_webgl = None, fd_fonts = None\<rparr>
      else or_empty (cq_fingerprint rq))"

definition overallScore :: "bot_analysis \<Rightarrow> ip_analysis \<Rightarrow> int" where
  "overallScore botAnalysis ipAnalysis =
     js_round (of_int (ba_score botAnalysis) * (6 / 10) + of_int (ia_abuseScore ipAnalysis) * (4 / 10))"

definition requiresChallenge :: "bot_analysis \<Rightarrow> ip_analysis \<Rightarrow> abuse_result \<Rightarrow> bool" where
  "requiresChallenge botAnalysis ipAnalysis abuseCheck =
     (overallScore botAnalysis ipAnalysis > 30 \<or> ar_shouldChallenge abuseCheck)"

definition new_challenge ::
  "create_env \<Rightarrow> create_request \<Rightarrow> string \<Rightarrow> bot_analysis \<Rightarrow> ip_analysis \<Rightarrow> challenge" where
  "new_challenge env rq fingerprint botAnalysis ipAnalysis =
     \<lparr>ch_id = ce_rowId env, ch_challengeId = ce_uuid env, ch_siteKey = cq_siteKey rq,
      ch_token = ce_randomToken env,
      ch_action = (case cq_action rq of None \<Rightarrow> ''verify'' | Some a \<Rightarrow> a),
      ch_verified = False,
      ch_score = 100 - overallScore botAnalysis ipAnalysis,
      ch_riskLevel = toUpperCase_risk (ba_riskLevel botAnalysis),
      ch_ipAddress = cq_ipAddress rq, ch_userAgent = request_userAgent rq,
      ch_fingerprint = fingerprint, ch_botScore = ba_score botAnalysis,
      ch_vpnDetected = ia_vpnDetected ipAnalysis, ch_proxyDetected = ia_proxyDetected ipAnalysis,
      ch_torDetected = ia_torDetected ipAnalysis, ch_abuseScore = ia_abuseScore ipAnalysis,
      ch_geoCountry = ia_country ipAnalysis,
      ch_expiresAt = ce_now env + ce_expirySeconds env * 1000\<rparr>"

definition create_body ::
  "create_env \<Rightarrow> bot_analysis \<Rightarrow> ip_analysis \<Rightarrow> abuse_result \<Rightarrow> created" where
  "create_body env botAnalysis ipAnalysis abuseCheck =
     \<lparr>cr_challengeId = ce_uuid env, cr_token = ce_randomToken env,
      cr_requiresInteraction = requiresChallenge botAnalysis ipAnalysis abuseCheck,
      cr_expiresAt = ce_now env + ce_expirySeconds env * 1000,
      cr_score = 100 - overallScore botAnalysis ipAnalysis,
      cr_riskLevel = ba_riskLevel botAnalysis\<rparr>"

definition request_bot_analysis :: "create_env \<Rightarrow> create_request \<Rightarrow> string \<Rightarrow> bot_analysis" where
  "request_bot_analysis env rq fingerprint =
     analyzeBotBehavior (ce_parsed env) (ce_geo env)
       \<lparr>bd_userAgent = request_userAgent rq, bd_fingerprint = fingerprint,
        bd_ipAddress = cq_ipAddress rq, bd_mouseMovements = cq_mouseMovements rq,
        bd_keystrokes = cq_keystrokes rq, bd_requestTimings = cq_requestTimings rq,
        bd_previousChallenges = None\<rparr>"

text \<open>The handler of \<open>POST /create\<close> once the site key is accepted and the request is not
  blocked: the two analyses, the new row, the usage row and the answer.\<close>

definition create_scored ::
  "create_env \<Rightarrow> create_request \<Rightarrow> api_key \<Rightarrow> string \<Rightarrow> abuse_result \<Rightarrow> app_state \<Rightarrow>
   create_response \<times> app_state" where
  "create_scored env rq apiKey fingerprint abuseCheck st =
     (let botAnalysis = request_bot_analysis env rq fingerprint
      in case analyzeIP (ce_now env) (ce_geo env) (ce_ipqs env) (ce_ipinfo env)
                (st_analyses st) (cq_ipAddress rq) of
           (ipAnalysis, analyses') \<Rightarrow>
             (Create_ok (create_body env botAnalysis ipAnalysis abuseCheck),
              st\<lparr>st_analyses := analyses',
                 st_challenges := st_challenges st
                    @ [new_challenge env rq fingerprint botAnalysis ipAnalysis],
                 st_usage := st_usage st
                    @ [\<lparr>us_userId = ak_userId apiKey, us_apiKeyId = ak_id apiKey,
                         us_endpoint = ''/challenge/create'', us_statusCode = 200,
                         us_ipAddress = cq_ipAddress rq\<rparr>]\<rparr>))"

definition create_handler :: "create_env \<Rightarrow> create_request \<Rightarrow> app_state \<Rightarrow> create_response \<times> app_state" where
  "create_handler env rq st =
     (if cq_siteKey rq = [] then (Create_invalid, st)
      else
        (case find (\<lambda>k. ak_siteKey k = cq_siteKey rq) (st_apiKeys st) of
           None \<Rightarrow> (Create_failed 401 ''Invalid site key'', st)
         | Some apiKey \<Rightarrow>
             if \<not> ak_isActive apiKey then (Create_failed 401 ''Invalid site key'', st)
             else
               (let fingerprint = request_fingerprint env rq
                in case detectAbusePatterns (ce_now env) (st_abuse st) (cq_ipAddress rq)
                          fingerprint (Some (cq_siteKey rq)) of
                     (abuseCheck, abuse') \<Rightarrow>
                       if ar_blocked abuseCheck
                       then (Create_blocked (ar_reason abuseCheck) (ar_severity abuseCheck),
                             st\<lparr>st_abuse := abuse'\<rparr>)
                       else create_scored env rq apiKey fingerprint abuseCheck
                              (st\<lparr>st_abuse := abuse'\<rparr>))))"

record verify_request =
  vq_token :: string
  vq_fingerprint :: "string option"
  vq_ipAddress :: string

record verified =
  vr_score :: int
  vr_riskLevel :: level
  vr_botScore :: int
  vr_vpnDetected :: bool
  vr_proxyDetected :: bool
  vr_torDetected :: bool
  vr_abuseScore :: int

datatype verify_response =
    Verify_invalid
  | Verify_failed nat string
  | Verify_ok verified

text \<open>\<open>fingerprint && fingerprint !== challenge.fingerprint\<close>: a missing fingerprint and the
  empty text are both falsy.\<close>

definition fingerprint_mismatch :: "string option \<Rightarrow> challenge \<Rightarrow> bool" where
  "fingerprint_mismatch fingerprint c =
     (\<not> falsy fingerprint \<and> or_empty fingerprint \<noteq> ch_fingerprint c)"

definition updatedScore :: "string option \<Rightarrow> challenge \<Rightarrow> int" where
  "updatedScore fingerprint c =
     (if fingerprint_mismatch fingerprint c then max 0 (ch_score c - 20) else ch_score c)"

definition updatedRiskLevel :: "string option \<Rightarrow> challenge \<Rightarrow> level" where
  "updatedRiskLevel fingerprint c =
     (if fingerprint_mismatch fingerprint c then HIGH else ch_riskLevel c)"

text \<open>The \<open>data\<close> of \<open>prisma.challenge.update\<close>, applied to a row.\<close>

definition mark_verified :: "int \<Rightarrow> level \<Rightarrow> challenge \<Rightarrow> challenge" where
  "mark_verified score riskLevel row =
     row\<lparr>ch_verified := True, ch_score := score, ch_riskLevel := riskLevel\<rparr>"

text \<open>\<open>prisma.challenge.update({where: {id}, data})\<close>\<close>

definition update_challenge :: "string \<Rightarrow> (challenge \<Rightarrow> challenge) \<Rightarrow> challenge list \<Rightarrow> challenge list" where
  "update_challenge rowId upd rows = map (\<lambda>row. if ch_id row = rowId then upd row else row) rows"

text \<open>The body of the successful answer: score, level and flags of the row that the
  update returns, and the abuse score of the row that was read.\<close>

definition verify_body :: "challenge \<Rightarrow> challenge \<Rightarrow> verified" where
  "verify_body c verifiedChallenge =
     \<lparr>vr_score = ch_score verifiedChallenge,
      vr_riskLevel = ch_riskLevel verifiedChallenge,
      vr_botScore = ch_botScore verifiedChallenge,
      vr_vpnDetected = ch_vpnDetected verifiedChallenge,
      vr_proxyDetected = ch_proxyDetected verifiedChallenge,
      vr_torDetected = ch_torDetected verifiedChallenge,
      vr_abuseScore = ch_abuseScore c\<rparr>"

definition usage_row :: "api_key \<Rightarrow> string \<Rightarrow> string \<Rightarrow> usage" where
  "usage_row apiKey endpoint ipAddress =
     \<lparr>us_userId = ak_userId apiKey, us_apiKeyId = ak_id apiKey, us_endpoint = endpoint,
      us_statusCode = 200, us_ipAddress = ipAddress\<rparr>"

text \<open>
  The handler of \<open>POST /verify\<close> suspends at each of its four database calls: the lookup of
  the challenge by its token, the lookup of the API key, the update of the challenge and
  the insertion of the usage row. Between two of them other requests may run. One step
  of a call is the code up to and including the next database call, run on the state of
  that moment; the stage carries the call's local variables \<open>challenge\<close>, \<open>apiKey\<close> and
  \<open>verifiedChallenge\<close>. The time is read when the call is resumed after the first lookup.
  An update that finds no row with the id makes the database call fail, and the handler
  answers 500; the other database calls are taken to succeed.
\<close>

datatype verify_stage =
    Start
  | Found challenge
  | Keyed challenge api_key
  | Written challenge challenge api_key
  | Done verify_response

fun verify_step :: "int \<Rightarrow> verify_request \<Rightarrow> verify_stage \<Rightarrow> app_state \<Rightarrow> verify_stage \<times> app_state" where
  "verify_step now rq Start st =
     (if vq_token rq = [] then (Done Verify_invalid, st)
      else
        (case find (\<lambda>c. ch_token c = vq_token rq) (st_challenges st) of
           None \<Rightarrow> (Done (Verify_failed 404 ''Challenge not found or expired''), st)
         | Some c \<Rightarrow> (Found c, st)))"
| "verify_step now rq (Found c) st =
     (if ch_verified c then (Done (Verify_failed 400 ''Challenge already verified''), st)
      else if ch_expiresAt c < now then (Done (Verify_failed 400 ''Challenge expired''), st)
      else
        (case find (\<lambda>k. ak_siteKey k = ch_siteKey c) (st_apiKeys st) of
           None \<Rightarrow> (Done (Verify_failed 401 ''Invalid API configuration''), st)
         | Some apiKey \<Rightarrow> (Keyed c apiKey, st)))"
| "verify_step now rq (Keyed c apiKey) st =
     (case find (\<lambda>row. ch_id row = ch_id c) (st_challenges st) of
        None \<Rightarrow> (Done (Verify_failed 500 ''Failed to verify challenge''), st)
      | Some row \<Rightarrow>
          (Written c
             (mark_verified (updatedScore (vq_fingerprint rq) c)
                (updatedRiskLevel (vq_fingerprint rq) c) row)
             apiKey,
           st\<lparr>st_challenges :=
                update_challenge (ch_id c)
                  (mark_verified (updatedScore (vq_fingerprint rq) c)
                     (updatedRiskLevel (vq_fingerprint rq) c))
                  (st_challenges st)\<rparr>))"
| "verify_step now rq (Written c verifiedChallenge apiKey) st =
     (Done (Verify_ok (verify_body c verifiedChallenge)),
      st\<lparr>st_usage := st_usage st @ [usage_row apiKey ''/challenge/verify'' (vq_ipAddress rq)]\<rparr>)"
| "verify_step now rq (Done response) st = (Done response, st)"

text \<open>The rest of a call from a stage on, when nothing else runs between its database
  calls: at most four steps lead to \<open>Done\<close>.\<close>

definition verify_rest :: "int \<Rightarrow> verify_request \<Rightarrow> verify_stage \<Rightarrow> app_state \<Rightarrow> verify_stage \<times> app_state" where
  "verify_rest now rq g st =
     (case verify_step now rq g st of (g1, s1) \<Rightarrow>
        (case verify_step now rq g1 s1 of (g2, s2) \<Rightarrow>
           (case verify_step now rq g2 s2 of (g3, s3) \<Rightarrow> verify_step now rq g3 s3)))"

text \<open>The whole handler in one piece, as it runs when no other request touches the
  database during the call; first from the point where the challenge is found, not
  verified and not expired.\<close>

definition verify_accept ::
  "verify_request \<Rightarrow> challenge \<Rightarrow> app_state \<Rightarrow> verify_response \<times> app_state" where
  "verify_accept rq c st =
     (case find (\<lambda>k. ak_siteKey k = ch_siteKey c) (st_apiKeys st) of
        None \<Rightarrow> (Verify_failed 401 ''Invalid API configuration'', st)
      | Some apiKey \<Rightarrow>
          (let verifiedChallenge =
                 mark_verified (updatedScore (vq_fingerprint rq) c)
                   (updatedRiskLevel (vq_fingerprint rq) c) c
           in (Verify_ok (verify_body c verifiedChallenge),
               st\<lparr>st_challenges :=
                    update_challenge (ch_id c)
                      (mark_verified (updatedScore (vq_fingerprint rq) c)
                         (updatedRiskLevel (vq_fingerprint rq) c))
                      (st_challenges st),
                  st_usage := st_usage st
                    @ [usage_row apiKey ''/challenge/verify'' (vq_ipAddress rq)]\<rparr>)))"

definition verify_handler :: "int \<Rightarrow> verify_request \<Rightarrow> app_state \<Rightarrow> verify_response \<times> app_state" where
  "verify_handler now rq st =
     (if vq_token rq = [] then (Verify_invalid, st)
      else
        (case find (\<lambda>c. ch_token c = vq_token rq) (st_challenges st) of
           None \<Rightarrow> (Verify_failed 404 ''Challenge not found or expired'', st)
         | Some c \<Rightarrow>
             if ch_verified c then (Verify_failed 400 ''Challenge already verified'', st)
             else if ch_expiresAt c < now then (Verify_failed 400 ''Challenge expired'', st)
             else verify_accept rq c st))"

text \<open>\<open>DELETE /:keyId\<close> of the API key routes: \<open>prisma.apiKey.deleteMany\<close> on the key's id
  and its owner. The database schema is not among the sources; the first argument says
  whether it removes the challenges of a deleted key's site along with the key.\<close>

definition delete_api_key :: "bool \<Rightarrow> string \<Rightarrow> string \<Rightarrow> app_state \<Rightarrow> app_state" where
  "delete_api_key cascade keyId userId st =
     (let gone = filter (\<lambda>k. ak_id k = keyId \<and> ak_userId k = userId) (st_apiKeys st)
      in st\<lparr>st_apiKeys := filter (\<lambda>k. \<not> (ak_id k = keyId \<and> ak_userId k = userId)) (st_apiKeys st),
            st_challenges :=
              (if cascade
               then filter (\<lambda>c. ch_siteKey c \<notin> set (map ak_siteKey gone)) (st_challenges st)
               else st_challenges st)\<rparr>)"

text \<open>
  What other requests and the database may do to the challenge table while a call for
  the token \<open>t\<close> is under way or after it: a verify call marks the rows of some id, a create
  call inserts a row, rows are removed (by a cascading delete, or by the periodic sweep
  of expired challenges that the specification describes), or the table is left alone
  while anything else changes. No other challenge is ever given the token \<open>t\<close>: tokens are
  32 random bytes, and the token column is unique.
\<close>

inductive db_step :: "string \<Rightarrow> app_state \<Rightarrow> app_state \<Rightarrow> bool" for t :: string where
  marked:
    "db_step t st (st\<lparr>st_challenges :=
                        update_challenge rowId (mark_verified score lvl) (st_challenges st)\<rparr>)"
| inserted:
    "ch_token c \<noteq> t \<Longrightarrow> db_step t st (st\<lparr>st_challenges := st_challenges st @ [c]\<rparr>)"
| removed:
    "db_step t st (st\<lparr>st_challenges := filter keep (st_challenges st)\<rparr>)"
| other:
    "st_challenges st' = st_challenges st \<Longrightarrow> db_step t st st'"

definition evolves :: "string \<Rightarrow> app_state \<Rightarrow> app_state \<Rightarrow> bool" where
  "evolves t = rtranclp (db_step t)"



text \<open>The states the service can be in: it starts with an empty cache, whatever the
  tables hold, and then handles requests, whole or step by step, and runs the cache's
  timer.\<close>

inductive reachable :: "app_state \<Rightarrow> bool" where
  start: "st_analyses st = Map.empty \<Longrightarrow> reachable st"
| created: "reachable st \<Longrightarrow> create_handler env crq st = (cresp, st') \<Longrightarrow> reachable st'"
| verified: "reachable st \<Longrightarrow> verify_handler now vrq st = (vresp, st') \<Longrightarrow> reachable st'"
| verify_stepped: "reachable st \<Longrightarrow> reachable (snd (verify_step now vrq g st))"
| key_deleted: "reachable st \<Longrightarrow> reachable (delete_api_key cascade keyId userId st)"
| cleaned: "reachable st \<Longrightarrow> reachable (st\<lparr>st_analyses := cleanup now (st_analyses st)\<rparr>)"

text \<open>Every cached IP analysis has its abuse score between 0 and 100.\<close>

definition analyses_in_range :: "ip_analysis store \<Rightarrow> bool" where
  "analyses_in_range cache =
     (\<forall>key item. cache key = Some item \<longrightarrow>
        0 \<le> ia_abuseScore (ci_value item) \<and> ia_abuseScore (ci_value item) \<le> 100)"

section \<open>Standalone variant: \<open>standalone-package/server.js\<close>\<close>






section \<open>Example requests\<close>

text \<open>A scripted client and a browser, one empty state with an API key, and the states
  after the browser's challenge is issued and after it is verified. Both requests carry a
  fingerprint, so the hash function of the environment is never called.\<close>

definition example_env :: create_env where
  "example_env =
     \<lparr>ce_now = 1000000, ce_rowId = ''row-1'', ce_uuid = ''uuid-1'', ce_randomToken = ''token-1'',
      ce_expirySeconds = 300,
      ce_parsed = \<lparr>ua_browser_name = None, ua_os_name = None, ua_browser_version = None\<rparr>,
      ce_geo = None, ce_ipqs = None, ce_ipinfo = None, ce_sha256_hex = (\<lambda>text. text)\<rparr>"

definition example_request :: create_request where
  "example_request =
     \<lparr>cq_siteKey = ''pk_1'', cq_action = None, cq_fingerprint = Some ''fp-1'',
      cq_mouseMovements = Some [], cq_keystrokes = Some [], cq_requestTimings = None,
      cq_ipAddress = ''203.0.113.7'', cq_userAgent = Some ''curl/8.0'',
      cq_acceptLanguage = None, cq_acceptEncoding = None\<rparr>"

definition example_state :: app_state where
  "example_state =
     \<lparr>st_abuse = \<lparr>as_counters = Map.empty, as_flags = Map.empty, as_blacklist = [],
                  as_abuseLogs = []\<rparr>,
      st_analyses = Map.empty, st_challenges = [],
      st_apiKeys = [\<lparr>ak_id = ''key-1'', ak_userId = ''user-1'', ak_siteKey = ''pk_1'',
                      ak_isActive = True\<rparr>],
      st_usage = []\<rparr>"

definition example_created :: created where
  "example_created =
     \<lparr>cr_challengeId = ''uuid-1'', cr_token = ''token-1'', cr_requiresInteraction = True,
      cr_expiresAt = 1300000, cr_score = 65, cr_riskLevel = high\<rparr>"

definition example_fingerprint_data :: fingerprint_data where
  "example_fingerprint_data =
     \<lparr>fd_fingerprint = None, fd_userAgent = Some ''Mozilla/5.0'',
      fd_ipAddress = Some ''203.0.113.7'', fd_acceptLanguage = Some ''en-US'',
      fd_acceptEncoding = Some ''gzip'', fd_screenResolution = None, fd_timezone = Some (- 60),
      fd_canvas = None, fd_webgl = None, fd_fonts = Some [''Arial'', ''Verdana'']\<rparr>"

definition example_browser_env :: create_env where
  "example_browser_env =
     \<lparr>ce_now = 1000000, ce_rowId = ''row-2'', ce_uuid = ''uuid-2'', ce_randomToken = ''token-2'',
      ce_expirySeconds = 300,
      ce_parsed = \<lparr>ua_browser_name = Some ''Chrome'', ua_os_name = Some ''Windows'',
                    ua_browser_version = Some 120\<rparr>,
      ce_geo = Some ''DE'', ce_ipqs = None,
      ce_ipinfo = Some \<lparr>p_vpn = True, p_proxy = False, p_hosting = False\<rparr>,
      ce_sha256_hex = (\<lambda>text. text)\<rparr>"

definition example_browser_request :: create_request where
  "example_browser_request =
     \<lparr>cq_siteKey = ''pk_1'', cq_action = None, cq_fingerprint = Some ''fp-2'',
      cq_mouseMovements =
        Some [\<lparr>mp_x = 0, mp_y = 0, mp_timestamp = 0\<rparr>, \<lparr>mp_x = 12, mp_y = 3, mp_timestamp = 16\<rparr>,
              \<lparr>mp_x = 20, mp_y = 11, mp_timestamp = 33\<rparr>, \<lparr>mp_x = 23, mp_y = 25, mp_timestamp = 50\<rparr>,
              \<lparr>mp_x = 40, mp_y = 26, mp_timestamp = 66\<rparr>],
      cq_keystrokes = None, cq_requestTimings = None,
      cq_ipAddress = ''198.51.100.9'',
      cq_userAgent = Some ''Mozilla/5.0 (Windows NT 10.0; Win64; x64) Chrome/120.0'',
      cq_acceptLanguage = Some ''en-US'', cq_acceptEncoding = Some ''gzip''\<rparr>"

definition example_issued :: app_state where
  "example_issued = snd (create_handler example_browser_env example_browser_request example_state)"

definition example_verify :: "string option \<Rightarrow> verify_request" where
  "example_verify fingerprint =
     \<lparr>vq_token = ''token-2'', vq_fingerprint = fingerprint, vq_ipAddress = ''198.51.100.9''\<rparr>"

definition example_challenge :: challenge where
  "example_challenge =
     \<lparr>ch_id = ''row-2'', ch_challengeId = ''uuid-2'', ch_siteKey = ''pk_1'',
      ch_token = ''token-2'', ch_action = ''verify'', ch_verified = False,
      ch_score = 90, ch_riskLevel = LOW, ch_ipAddress = ''198.51.100.9'',
      ch_userAgent = ''Mozilla/5.0 (Windows NT 10.0; Win64; x64) Chrome/120.0'',
      ch_fingerprint = ''fp-2'', ch_botScore = 0, ch_vpnDetected = False,
      ch_proxyDetected = False, ch_torDetected = False, ch_abuseScore = 25,
      ch_geoCountry = Some ''DE'', ch_expiresAt = 1300000\<rparr>"

definition example_key :: api_key where
  "example_key = \<lparr>ak_id = ''key-1'', ak_userId = ''user-1'', ak_siteKey = ''pk_1'', ak_isActive = True\<rparr>"

definition example_consumed :: app_state where
  "example_consumed = snd (verify_handler 1000500 (example_verify (Some ''fp-2'')) example_issued)"


definition example_banned :: abuse_state where
  "example_banned =
     \<lparr>as_counters = Map.empty, as_flags = Map.empty,
      as_blacklist = [\<lparr>bl_type = IP, bl_value = ''203.0.113.7'', bl_reason = ''manual'',
                        bl_permanent = True, bl_expiresAt = None\<rparr>],
      as_abuseLogs = []\<rparr>"

subsection \<open>What stays true during a run in one window\<close>

text \<open>The value of a counter, 0 when the key is absent (\<open>current?.value || 0\<close>).\<close>

definition counter_value :: "int store \<Rightarrow> string \<Rightarrow> int" where
  "counter_value c key = (case c key of None \<Rightarrow> 0 | Some item \<Rightarrow> ci_value item)"

text \<open>
  The state of a run whose events all lie in window \<open>b\<close>, with \<open>P\<close> the requests called and
  not yet resumed: exactly these are pending, each holds the key of the window, the
  counter under that key cannot expire at a time inside the window, and every report
  made so far is limited exactly when its count exceeds the maximum.
\<close>

definition settled :: "int \<Rightarrow> int \<Rightarrow> int \<Rightarrow> string \<Rightarrow> rl_run \<Rightarrow> nat list \<Rightarrow> bool" where
  "settled w m b key s P \<longleftrightarrow>
     distinct P \<and> dom (rr_pending s) = set P
     \<and> (\<forall>r \<in> set P. fst (the (rr_pending s r)) = key)
     \<and> (\<forall>item. rr_counters s key = Some item \<longrightarrow> (\<forall>t. time_bucket w t = b \<longrightarrow> \<not> expired t item))
     \<and> (\<forall>p \<in> set (rr_reports s). rl_limited (snd p) \<longleftrightarrow> m < rl_current (snd p))"

text \<open>The counts handed out so far: those already reported and those held by pending
  requests.\<close>

definition currents :: "rl_run \<Rightarrow> nat list \<Rightarrow> int multiset" where
  "currents s P =
     mset (map (\<lambda>p. rl_current (snd p)) (rr_reports s))
     + mset (map (\<lambda>r. snd (the (rr_pending s r))) P)"

subsection \<open>Two schedules\<close>

text \<open>Thirty-one requests inside the window that starts at 60000 ms, all called before
  any is resumed, with a run of the timer in between; and thirty-one requests within one
  millisecond of each other, the last one at the start of the next window.\<close>

definition example_burst :: "event list" where
  "example_burst =
     map (\<lambda>r. Call r 60000) [0..<31] @ [Cleanup 90000] @ map (\<lambda>r. Resume r 119999) (rev [0..<31])"

definition example_straddling :: "event list" where
  "example_straddling =
     concat (map (\<lambda>r. [Call r 59999, Resume r 59999]) [0..<30]) @ [Call 30 60000, Resume 30 60000]"

definition fresh_run :: rl_run where
  "fresh_run = \<lparr>rr_counters = Map.empty, rr_pending = Map.empty, rr_reports = []\<rparr>"

section \<open>Score ranges\<close>

lemma block_mono:
  "fst t \<le> fst (user_agent_block (analyzeUserAgent parsed ua) t)"
  "fst t \<le> fst (mouse_block mm t)"
  "fst t \<le> fst (keystroke_block ks t)"
  "fst t \<le> fst (timing_block ts t)"
  "fst t \<le> fst (history_block pc t)"
  "fst t \<le> fst (geo_block geo t)"
  by (auto simp: user_agent_block_def analyzeUserAgent_def mouse_block_def keystroke_block_def
      timing_block_def history_block_def geo_block_def Let_def split: prod.splits option.splits if_splits)

lemma bot_tally_nonneg: "0 \<le> fst (bot_tally parsed geo data)"
proof -
  let ?t0 = "(0, [], []) :: tally"
  let ?t1 = "user_agent_block (analyzeUserAgent parsed (bd_userAgent data)) ?t0"
  let ?t2 = "mouse_block (bd_mouseMovements data) ?t1"
  let ?t3 = "keystroke_block (bd_keystrokes data) ?t2"
  let ?t4 = "timing_block (bd_requestTimings data) ?t3"
  let ?t5 = "history_block (bd_previousChallenges data) ?t4"
  have "0 \<le> fst ?t1" using block_mono(1) [of ?t0] by simp
  also have "\<dots> \<le> fst ?t2" by (rule block_mono)
  also have "\<dots> \<le> fst ?t3" by (rule block_mono)
  also have "\<dots> \<le> fst ?t4" by (rule block_mono)
  also have "\<dots> \<le> fst ?t5" by (rule block_mono)
  also have "\<dots> \<le> fst (geo_block geo ?t5)" by (rule block_mono)
  finally show ?thesis by (simp add: bot_tally_def)
qed

lemma js_round_nonneg: "0 \<le> x \<Longrightarrow> 0 \<le> js_round x"
  by (simp add: js_round_def)

lemma js_round_mono: "x \<le> y \<Longrightarrow> js_round x \<le> js_round y"
  by (simp add: js_round_def floor_mono)

lemma analyzeBotBehavior_score_range:
  "0 \<le> ba_score (analyzeBotBehavior parsed geo data) \<and> ba_score (analyzeBotBehavior parsed geo data) \<le> 100"
proof (cases "bot_tally parsed geo data")
  case (fields score signals reasons)
  then have "0 \<le> score" using bot_tally_nonneg [of parsed geo data] by simp
  then show ?thesis by (simp add: analyzeBotBehavior_def fields js_round_nonneg)
qed

lemma checkIPReputation_nonneg: "0 \<le> fst (checkIPReputation ipqs ipinfo)"
  by (simp add: checkIPReputation_def ipqs_block_def ipinfo_block_def add_if_def split: option.splits)

lemma compute_ip_analysis_range:
  "0 \<le> ia_abuseScore (compute_ip_analysis geo ipqs ipinfo ip) \<and> ia_abuseScore (compute_ip_analysis geo ipqs ipinfo ip) \<le> 100"
  using checkIPReputation_nonneg [of ipqs ipinfo]
  by (simp add: compute_ip_analysis_def checkVPNDatabase_def checkTorExitNode_def checkHostingProvider_def add_if_def Let_def)

lemma analyzeIP_range:
  assumes "analyses_in_range cache" "analyzeIP now geo ipqs ipinfo cache ip = (a, cache')"
  shows "0 \<le> ia_abuseScore a \<and> ia_abuseScore a \<le> 100 \<and> analyses_in_range cache'"
  using assms compute_ip_analysis_range [of geo ipqs ipinfo ip]
  by (auto simp: analyzeIP_def get_key_def setEx_def analyses_in_range_def Let_def split: option.splits if_splits)

lemma cleanup_in_range: "analyses_in_range cache \<Longrightarrow> analyses_in_range (cleanup now cache)"
  by (auto simp: analyses_in_range_def cleanup_def split: option.splits if_splits)

lemma overallScore_range:
  assumes "0 \<le> ba_score b" "ba_score b \<le> 100" "0 \<le> ia_abuseScore a" "ia_abuseScore a \<le> 100"
  shows "0 \<le> overallScore b a \<and> overallScore b a \<le> 100"
proof -
  let ?x = "of_int (ba_score b) * (6 / 10) + of_int (ia_abuseScore a) * (4 / 10) :: rat"
  have b: "(0::rat) \<le> of_int (ba_score b)" "(of_int (ba_score b) :: rat) \<le> 100"
    "(0::rat) \<le> of_int (ia_abuseScore a)" "(of_int (ia_abuseScore a) :: rat) \<le> 100"
    using assms by simp_all
  have "0 \<le> ?x" "?x \<le> 100" using b by simp_all
  then have "0 \<le> \<lfloor>?x + 1 / 2\<rfloor>" "\<lfloor>?x + 1 / 2\<rfloor> \<le> 100"
    by (simp_all add: floor_le_iff)
  then show ?thesis
    by (simp add: overallScore_def js_round_def)
qed

lemma create_scored_analyses:
  "analyses_in_range (st_analyses st) \<Longrightarrow> create_scored env rq k fp ac st = (r, st') \<Longrightarrow> analyses_in_range (st_analyses st')"
  by (auto simp: create_scored_def Let_def split: prod.splits dest: analyzeIP_range)

lemma create_handler_analyses:
  "analyses_in_range (st_analyses st) \<Longrightarrow> create_handler env rq st = (r, st') \<Longrightarrow> analyses_in_range (st_analyses st')"
proof -
  assume inv: "analyses_in_range (st_analyses st)" and run: "create_handler env rq st = (r, st')"
  show ?thesis
  proof (cases "st_analyses st' = st_analyses st")
    case True
    with inv show ?thesis by simp
  next
    case False
    with run obtain k fp ac ab where "create_scored env rq k fp ac (st\<lparr>st_abuse := ab\<rparr>) = (r, st')"
      by (auto simp: create_handler_def Let_def split: prod.splits option.splits if_splits)
    with inv show ?thesis
      using create_scored_analyses [of "st\<lparr>st_abuse := ab\<rparr>" env rq k fp ac r st'] by simp
  qed
qed

lemma verify_handler_analyses:
  "verify_handler now rq st = (r, st') \<Longrightarrow> st_analyses st' = st_analyses st"
  by (auto simp: verify_handler_def verify_accept_def Let_def split: prod.splits option.splits if_splits)

lemma reachable_analyses_in_range: "reachable st \<Longrightarrow> analyses_in_range (st_analyses st)"
proof (induction rule: reachable.induct)
  case (start st)
  then show ?case by (simp add: analyses_in_range_def)
next
  case (created st env crq cresp st')
  then show ?case by (blast intro: create_handler_analyses)
next
  case (verified st now vrq vresp st')
  then show ?case by (simp add: verify_handler_analyses)
next
  case (verify_stepped st now vrq g)
  then show ?case by (cases g) (auto split: option.splits)
next
  case (key_deleted st cascade keyId userId)
  then show ?case by (simp add: delete_api_key_def Let_def)
next
  case (cleaned st now)
  then show ?case by (simp add: cleanup_in_range)
qed


lemma create_handler_ok:
  assumes "create_handler env rq st = (Create_ok body, st')"
  obtains abuseCheck ipAnalysis analyses' where
    "analyzeIP (ce_now env) (ce_geo env) (ce_ipqs env) (ce_ipinfo env) (st_analyses st) (cq_ipAddress rq)
       = (ipAnalysis, analyses')"
    "body = create_body env (request_bot_analysis env rq (request_fingerprint env rq)) ipAnalysis abuseCheck"
    "st_challenges st' = st_challenges st
       @ [new_challenge env rq (request_fingerprint env rq)
            (request_bot_analysis env rq (request_fingerprint env rq)) ipAnalysis]"
  using assms
  by (auto simp: create_handler_def create_scored_def Let_def
      split: prod.splits option.splits if_splits)

text \<open>
  C4. The score of the behavioural analysis is between 0 and 100 on every input. In every
  reachable state the abuse score that \<open>analyzeIP\<close> returns is between 0 and 100, whether
  it is computed or read from the cache. Whenever \<open>create_handler\<close> answers with a
  challenge from a reachable state, the score in the answer is between 0 and 100, it is the
  score of the row the handler stores, and it is 100 minus the rounded sum of 0.6 times
  the row's bot score and 0.4 times its abuse score.
\<close>

theorem score_bounds:
  "(0 \<le> ba_score (analyzeBotBehavior parsed geo data)
      \<and> ba_score (analyzeBotBehavior parsed geo data) \<le> 100)
   \<and> (reachable st \<longrightarrow>
         0 \<le> ia_abuseScore (fst (analyzeIP now geo' ipqs ipinfo (st_analyses st) ip))
         \<and> ia_abuseScore (fst (analyzeIP now geo' ipqs ipinfo (st_analyses st) ip)) \<le> 100)
   \<and> (reachable st \<and> create_handler env rq st = (Create_ok body, st') \<longrightarrow>
         0 \<le> cr_score body \<and> cr_score body \<le> 100
         \<and> (\<exists>c. st_challenges st' = st_challenges st @ [c] \<and> ch_score c = cr_score body
               \<and> ch_score c = 100 - js_round (of_int (ch_botScore c) * (6 / 10)
                                               + of_int (ch_abuseScore c) * (4 / 10))))"
proof (intro conjI impI)
  show "0 \<le> ba_score (analyzeBotBehavior parsed geo data)"
    and "ba_score (analyzeBotBehavior parsed geo data) \<le> 100"
    using analyzeBotBehavior_score_range [of parsed geo data] by simp_all
next
  assume "reachable st"
  then have inv: "analyses_in_range (st_analyses st)" by (rule reachable_analyses_in_range)
  obtain a c' where run: "analyzeIP now geo' ipqs ipinfo (st_analyses st) ip = (a, c')"
    by (cases "analyzeIP now geo' ipqs ipinfo (st_analyses st) ip")
  from analyzeIP_range [OF inv run]
  show "0 \<le> ia_abuseScore (fst (analyzeIP now geo' ipqs ipinfo (st_analyses st) ip))"
    and "ia_abuseScore (fst (analyzeIP now geo' ipqs ipinfo (st_analyses st) ip)) \<le> 100"
    by (simp_all add: run)
next
  assume h: "reachable st \<and> create_handler env rq st = (Create_ok body, st')"
  then have inv: "analyses_in_range (st_analyses st)" by (simp add: reachable_analyses_in_range)
  from h obtain abuseCheck ipAnalysis analyses' where
    ip: "analyzeIP (ce_now env) (ce_geo env) (ce_ipqs env) (ce_ipinfo env) (st_analyses st)
           (cq_ipAddress rq) = (ipAnalysis, analyses')"
    and body: "body = create_body env (request_bot_analysis env rq (request_fingerprint env rq))
                 ipAnalysis abuseCheck"
    and rows: "st_challenges st' = st_challenges st
       @ [new_challenge env rq (request_fingerprint env rq)
            (request_bot_analysis env rq (request_fingerprint env rq)) ipAnalysis]"
    by (auto elim: create_handler_ok)
  let ?b = "request_bot_analysis env rq (request_fingerprint env rq)"
  have b: "0 \<le> ba_score ?b" "ba_score ?b \<le> 100"
    using analyzeBotBehavior_score_range by (simp_all add: request_bot_analysis_def)
  have a: "0 \<le> ia_abuseScore ipAnalysis" "ia_abuseScore ipAnalysis \<le> 100"
    using analyzeIP_range [OF inv ip] by simp_all
  have o: "0 \<le> overallScore ?b ipAnalysis" "overallScore ?b ipAnalysis \<le> 100"
    using overallScore_range [OF b a] by simp_all
  show "0 \<le> cr_score body" and "cr_score body \<le> 100"
    using o by (simp_all add: body create_body_def)
  show "\<exists>c. st_challenges st' = st_challenges st @ [c] \<and> ch_score c = cr_score body
          \<and> ch_score c = 100 - js_round (of_int (ch_botScore c) * (6 / 10)
                                          + of_int (ch_abuseScore c) * (4 / 10))"
    by (rule exI [of _ "new_challenge env rq (request_fingerprint env rq) ?b ipAnalysis"])
      (simp add: rows body create_body_def new_challenge_def overallScore_def)
qed

lemma example_create:
  "fst (create_handler example_env example_request example_state) = Create_ok example_created"
  by code_simp

lemma example_reachable: "reachable example_state"
  by (rule reachable.start) (simp add: example_state_def)

theorem score_bounds_witness:
  "reachable example_state
   \<and> fst (create_handler example_env example_request example_state) = Create_ok example_created
   \<and> 0 \<le> ia_abuseScore (fst (analyzeIP 1000000 None None None (st_analyses example_state)
                                  ''203.0.113.7''))
   \<and> ia_abuseScore (fst (analyzeIP 1000000 None None None (st_analyses example_state)
                            ''203.0.113.7'')) \<le> 100
   \<and> 0 \<le> cr_score example_created \<and> cr_score example_created \<le> 100"
proof -
  have run: "create_handler example_env example_request example_state
      = (Create_ok example_created, snd (create_handler example_env example_request example_state))"
    using example_create by (simp add: prod_eq_iff)
  show ?thesis
    using score_bounds [where st = example_state and env = example_env and rq = example_request
        and body = example_created
        and st' = "snd (create_handler example_env example_request example_state)"
        and now = 1000000 and geo' = None and ipqs = None and ipinfo = None
        and ip = "''203.0.113.7''"]
      example_reachable run example_create
    by simp
qed

section \<open>A scripted client without input\<close>

lemma curl_matches: "list_ex (\<lambda>pattern. regex_test_i pattern ''curl/8.0'') botPatterns"
  by code_simp

lemma curl_user_agent:
  "ua_isBot (analyzeUserAgent parsed ''curl/8.0'')
   \<and> ua_confidence (analyzeUserAgent parsed ''curl/8.0'') = 9 / 10"
  by (simp add: analyzeUserAgent_def curl_matches Let_def split: option.splits)

lemma empty_traces_add:
  "fst (mouse_block (Some []) t) = fst t + 20"
  "fst (keystroke_block (Some []) t) = fst t + 10"
  by (simp_all add: mouse_block_def keystroke_block_def split: prod.splits)

lemma curl_tally:
  assumes "bd_userAgent data = ''curl/8.0''" "bd_mouseMovements data = Some []"
    "bd_keystrokes data = Some []"
  shows "105 / 2 \<le> fst (bot_tally parsed geo data)"
proof -
  let ?t1 = "user_agent_block (analyzeUserAgent parsed ''curl/8.0'') (0, [], [])"
  let ?t3 = "keystroke_block (Some []) (mouse_block (Some []) ?t1)"
  let ?t4 = "timing_block (bd_requestTimings data) ?t3"
  let ?t5 = "history_block (bd_previousChallenges data) ?t4"
  have "fst ?t1 = 45 / 2"
    using curl_user_agent [of parsed] by (simp add: user_agent_block_def)
  then have "105 / 2 = fst ?t3" by (simp add: empty_traces_add)
  also have "\<dots> \<le> fst ?t4" by (rule block_mono)
  also have "\<dots> \<le> fst ?t5" by (rule block_mono)
  also have "\<dots> \<le> fst (geo_block geo ?t5)" by (rule block_mono)
  finally show ?thesis by (simp add: bot_tally_def assms)
qed

lemma curl_analysis:
  assumes "bd_userAgent data = ''curl/8.0''" "bd_mouseMovements data = Some []"
    "bd_keystrokes data = Some []"
  shows "53 \<le> ba_score (analyzeBotBehavior parsed geo data)"
    and "ba_riskLevel (analyzeBotBehavior parsed geo data) \<in> {high, critical}"
proof -
  obtain score signals reasons where t: "bot_tally parsed geo data = (score, signals, reasons)"
    by (cases "bot_tally parsed geo data")
  then have s: "105 / 2 \<le> score" using curl_tally [OF assms, of parsed geo] by simp
  then have "js_round (105 / 2) \<le> js_round score" by (rule js_round_mono)
  moreover have "js_round (105 / 2) = 53" by (simp add: js_round_def)
  ultimately show "53 \<le> ba_score (analyzeBotBehavior parsed geo data)"
    by (simp add: analyzeBotBehavior_def t)
  show "ba_riskLevel (analyzeBotBehavior parsed geo data) \<in> {high, critical}"
    using s by (simp add: analyzeBotBehavior_def t risk_of_score_def)
qed

lemma overallScore_above_30:
  assumes "53 \<le> ba_score b" "0 \<le> ia_abuseScore a"
  shows "30 < overallScore b a"
proof -
  have "(159 / 5 :: rat) \<le> of_int (ba_score b) * (6 / 10) + of_int (ia_abuseScore a) * (4 / 10)"
    using assms by simp
  then have "js_round (159 / 5) \<le> overallScore b a"
    unfolding overallScore_def by (rule js_round_mono)
  moreover have "js_round (159 / 5) = 32" by (simp add: js_round_def floor_eq_iff)
  ultimately show ?thesis by simp
qed

text \<open>
  C5. A create request that carries \<open>mouseMovements = []\<close>, \<open>keystrokes = []\<close> and the user
  agent \<open>curl/8.0\<close> gets a bot score of at least 45 and a risk level of medium or higher,
  whatever its address, its other fields and the library answers are; with any abuse
  score between 0 and 100 the answer built for it has \<open>requiresInteraction = true\<close>, and so has
  every answer with a challenge that \<open>create_handler\<close> gives it from a reachable state.
\<close>

theorem curl_without_input_requires_interaction:
  assumes "cq_userAgent rq = Some ''curl/8.0''" "cq_mouseMovements rq = Some []"
    "cq_keystrokes rq = Some []"
  shows "45 \<le> ba_score (request_bot_analysis env rq fingerprint)
    \<and> ba_riskLevel (request_bot_analysis env rq fingerprint) \<in> {medium, high, critical}
    \<and> (\<forall>ipAnalysis abuseCheck. 0 \<le> ia_abuseScore ipAnalysis \<and> ia_abuseScore ipAnalysis \<le> 100 \<longrightarrow>
          cr_requiresInteraction
            (create_body env (request_bot_analysis env rq fingerprint) ipAnalysis abuseCheck))
    \<and> (\<forall>st body st'. reachable st \<and> create_handler env rq st = (Create_ok body, st') \<longrightarrow>
          cr_requiresInteraction body \<and> cr_riskLevel body \<in> {medium, high, critical})"
proof -
  have ua: "request_userAgent rq = ''curl/8.0''"
    using assms(1) by (simp add: request_userAgent_def falsy_def or_empty_def)
  have b: "53 \<le> ba_score (request_bot_analysis env rq fp)"
    "ba_riskLevel (request_bot_analysis env rq fp) \<in> {high, critical}" for fp
    unfolding request_bot_analysis_def
    by (rule curl_analysis; simp add: ua assms)+
  have req: "cr_requiresInteraction (create_body env (request_bot_analysis env rq fp) a ac)"
    if "0 \<le> ia_abuseScore a" for fp a ac
    using overallScore_above_30 [OF b(1) that] by (simp add: create_body_def requiresChallenge_def)
  have handler: "cr_requiresInteraction body \<and> cr_riskLevel body \<in> {medium, high, critical}"
    if h: "reachable st \<and> create_handler env rq st = (Create_ok body, st')" for st body st'
  proof -
    from h have inv: "analyses_in_range (st_analyses st)" by (simp add: reachable_analyses_in_range)
    from h obtain abuseCheck ipAnalysis analyses' where
      ip: "analyzeIP (ce_now env) (ce_geo env) (ce_ipqs env) (ce_ipinfo env) (st_analyses st)
           (cq_ipAddress rq) = (ipAnalysis, analyses')"
      and body: "body = create_body env (request_bot_analysis env rq (request_fingerprint env rq))
                 ipAnalysis abuseCheck"
      by (auto elim: create_handler_ok)
    have "0 \<le> ia_abuseScore ipAnalysis" using analyzeIP_range [OF inv ip] by simp
    then have "cr_requiresInteraction body" unfolding body by (rule req)
    moreover have "cr_riskLevel body \<in> {medium, high, critical}"
      using b(2) [of "request_fingerprint env rq"] by (auto simp: body create_body_def)
    ultimately show ?thesis by simp
  qed
  show ?thesis
    using b [of fingerprint] req handler by auto
qed

theorem curl_without_input_requires_interaction_witness:
  "cq_userAgent example_request = Some ''curl/8.0''
   \<and> cq_mouseMovements example_request = Some [] \<and> cq_keystrokes example_request = Some []
   \<and> reachable example_state
   \<and> fst (create_handler example_env example_request example_state) = Create_ok example_created
   \<and> cr_requiresInteraction example_created
   \<and> 45 \<le> ba_score (request_bot_analysis example_env example_request ''fp-1'')
   \<and> cr_requiresInteraction
        (create_body example_env (request_bot_analysis example_env example_request ''fp-1'')
           (compute_ip_analysis None None None ''203.0.113.7'')
           \<lparr>ar_blocked = False, ar_reason = None, ar_severity = LOW, ar_shouldChallenge = False\<rparr>)"
proof -
  have fields: "cq_userAgent example_request = Some ''curl/8.0''"
    "cq_mouseMovements example_request = Some []" "cq_keystrokes example_request = Some []"
    by (simp_all add: example_request_def)
  have run: "create_handler example_env example_request example_state
      = (Create_ok example_created, snd (create_handler example_env example_request example_state))"
    using example_create by (simp add: prod_eq_iff)
  have range: "0 \<le> ia_abuseScore (compute_ip_analysis None None None ''203.0.113.7'')
      \<and> ia_abuseScore (compute_ip_analysis None None None ''203.0.113.7'') \<le> 100"
    by (rule compute_ip_analysis_range)
  show ?thesis
    using curl_without_input_requires_interaction [OF fields, of example_env "''fp-1''"]
      fields example_reachable run example_create range
    by blast
qed

section \<open>The linearity check on short traces\<close>

text \<open>
  C6. A trace of five points on one straight line: all three of its consecutive triples
  are collinear, yet the analysis adds nothing for linear movement, because the count of
  collinear triples, 3, is compared with 0.7 times the number of points, 3.5, and not with
  0.7 times the number of triples.
\<close>

theorem straight_trace_of_five_points_not_flagged:
  "straightLines
     [\<lparr>mp_x = 0, mp_y = 0, mp_timestamp = 0\<rparr>, \<lparr>mp_x = 10, mp_y = 10, mp_timestamp = 16\<rparr>,
      \<lparr>mp_x = 20, mp_y = 20, mp_timestamp = 33\<rparr>, \<lparr>mp_x = 30, mp_y = 30, mp_timestamp = 50\<rparr>,
      \<lparr>mp_x = 40, mp_y = 40, mp_timestamp = 66\<rparr>] = 3
   \<and> mouse_block
       (Some [\<lparr>mp_x = 0, mp_y = 0, mp_timestamp = 0\<rparr>, \<lparr>mp_x = 10, mp_y = 10, mp_timestamp = 16\<rparr>,
              \<lparr>mp_x = 20, mp_y = 20, mp_timestamp = 33\<rparr>, \<lparr>mp_x = 30, mp_y = 30, mp_timestamp = 50\<rparr>,
              \<lparr>mp_x = 40, mp_y = 40, mp_timestamp = 66\<rparr>]) (0, [], []) = (0, [], [])"
  by code_simp

text \<open>There are \<open>length - 2\<close> triples, so with five or six points the count can never exceed
  0.7 times the number of points, and the branch for linear movement is never taken.\<close>

lemma straightLines_le: "straightLines ms \<le> length ms - 2"
  by (induction ms rule: straightLines.induct) auto

lemma threshold_of_short_trace:
  "fmul 5 (fl (7 / 10)) = 7 / 2" "4 \<le> fmul 6 (fl (7 / 10))"
  by code_simp+

lemma short_trace_never_linear:
  assumes "length ms = 5 \<or> length ms = 6"
  shows "mouse_block (Some ms) t = t"
proof -
  have "of_nat (straightLines ms) \<le> (of_nat (length ms - 2) :: rat)"
    using straightLines_le [of ms] by (simp only: of_nat_le_iff)
  then have "\<not> of_nat (straightLines ms) > fmul (of_nat (length ms)) (fl (7 / 10))"
    using assms threshold_of_short_trace by auto
  then show ?thesis using assms by (auto simp: mouse_block_def split: prod.splits)
qed

section \<open>Comparisons in doubles\<close>

text \<open>
  The linearity threshold and the keystroke variance are compared as the doubles that
  the code computes. Ninety points need more than 62.99999999999999 straight triples, so
  63 suffice; and keystrokes at 0, 37.8 and 55.6 milliseconds, whose intervals have the
  exact variance 100, have the computed variance 99.99999999999993 and count as uniform.
\<close>

lemma threshold_of_ninety_points: "fmul 90 (fl (7 / 10)) < 63"
  by code_simp

lemma ninety_points_with_63_straight_triples:
  assumes "length movements = 90" "straightLines movements = 63"
  shows "mouse_block (Some movements) (score, signals, reasons)
    = (score + 10, signals @ [''linear_mouse_movement''],
       reasons @ [''Mouse movements too linear''])"
  using assms threshold_of_ninety_points by (simp add: mouse_block_def)

lemma variance_just_below_100:
  "variance (intervals [0, fl (189 / 5), fl (278 / 5)]) = 7036874417766395 / 70368744177664"
  by code_simp

lemma keystrokes_uniform_in_doubles:
  "keystroke_block
     (Some [\<lparr>ks_key = ''a'', ks_timestamp = 0\<rparr>, \<lparr>ks_key = ''b'', ks_timestamp = fl (189 / 5)\<rparr>,
            \<lparr>ks_key = ''c'', ks_timestamp = fl (278 / 5)\<rparr>])
     (0, [], [])
   = (15, [''uniform_keystrokes''], [''Keystroke timing too uniform''])"
proof -
  have n: "intervals [0, fl (189 / 5), fl (278 / 5)] \<noteq> []"
    by simp
  show ?thesis
    by (simp add: keystroke_block_def Let_def variance_just_below_100 n del: intervals.simps)
qed


section \<open>Fingerprints\<close>

lemma join_cons: "join sep (x # bs) = x @ concat (map (\<lambda>b. sep @ b) bs)"
  by (induction bs arbitrary: x) simp_all

lemma join_split:
  "join sep (as @ x # bs) = concat (map (\<lambda>a. a @ sep) as) @ x @ concat (map (\<lambda>b. sep @ b) bs)"
proof (induction as)
  case Nil
  show ?case by (simp add: join_cons)
next
  case (Cons a as)
  obtain y ys where "as @ x # bs = y # ys" by (cases "as @ x # bs") simp_all
  with Cons show ?case by simp
qed

lemma join_differs:
  assumes len: "length xs = length ys" and i: "i < length xs" and ne: "xs ! i \<noteq> ys ! i"
    and rest: "\<forall>j<length xs. j \<noteq> i \<longrightarrow> xs ! j = ys ! j"
  shows "join sep xs \<noteq> join sep ys"
proof -
  have t: "take i xs = take i ys"
    using len i rest by (intro nth_equalityI) simp_all
  have d: "drop (Suc i) xs = drop (Suc i) ys"
    using len i rest by (intro nth_equalityI) simp_all
  have "xs = take i xs @ xs ! i # drop (Suc i) xs" using i by (simp add: id_take_nth_drop)
  moreover have "ys = take i ys @ ys ! i # drop (Suc i) ys" using i len by (simp add: id_take_nth_drop)
  ultimately have "join sep xs = concat (map (\<lambda>a. a @ sep) (take i xs)) @ xs ! i @ concat (map (\<lambda>b. sep @ b) (drop (Suc i) xs))"
    and "join sep ys = concat (map (\<lambda>a. a @ sep) (take i xs)) @ ys ! i @ concat (map (\<lambda>b. sep @ b) (drop (Suc i) xs))"
    using join_split [of sep "take i xs" "xs ! i" "drop (Suc i) xs"]
      join_split [of sep "take i ys" "ys ! i" "drop (Suc i) ys"] t d by simp_all
  then show ?thesis using ne by simp
qed

lemma length_components: "length (components d) = 8"
  by (simp add: components_def)

text \<open>
  C7, as amended. \<open>generateFingerprint\<close> is a function of its argument, and of the eight
  serialized components only: records with the same components have the same digest.
  When the components of two records differ in exactly one of the eight positions, the
  hashed texts differ.
\<close>

theorem fingerprint_of_components:
  "(components d1 = components d2 \<longrightarrow>
      generateFingerprint sha256_hex d1 = generateFingerprint sha256_hex d2)
   \<and> (i < 8 \<and> components d1 ! i \<noteq> components d2 ! i
        \<and> (\<forall>j<8. j \<noteq> i \<longrightarrow> components d1 ! j = components d2 ! j) \<longrightarrow>
      fingerprint_text d1 \<noteq> fingerprint_text d2)"
proof (intro conjI impI)
  assume "components d1 = components d2"
  then show "generateFingerprint sha256_hex d1 = generateFingerprint sha256_hex d2"
    by (simp add: generateFingerprint_def fingerprint_text_def)
next
  assume h: "i < 8 \<and> components d1 ! i \<noteq> components d2 ! i
        \<and> (\<forall>j<8. j \<noteq> i \<longrightarrow> components d1 ! j = components d2 ! j)"
  show "fingerprint_text d1 \<noteq> fingerprint_text d2"
    unfolding fingerprint_text_def
    by (rule join_differs [where i = i]) (use h in \<open>simp_all add: length_components\<close>)
qed

text \<open>
  C7 as stated fails. The address is a field of the input record, passed by the create
  handler, and is not among the components; the font list is joined by commas without
  escaping; and the separator \<open>|\<close> may occur inside a component. So two records that differ
  in the address only, or in the font list only, have the same hashed text, and the
  separator can be taken for content.
\<close>

theorem fingerprint_collisions:
  "fd_ipAddress example_fingerprint_data \<noteq> Some ''198.51.100.9''
   \<and> fingerprint_text (example_fingerprint_data\<lparr>fd_ipAddress := Some ''198.51.100.9''\<rparr>)
       = fingerprint_text example_fingerprint_data
   \<and> fd_fonts example_fingerprint_data \<noteq> Some [''Arial,Verdana'']
   \<and> fingerprint_text (example_fingerprint_data\<lparr>fd_fonts := Some [''Arial,Verdana'']\<rparr>)
       = fingerprint_text example_fingerprint_data
   \<and> fingerprint_text (example_fingerprint_data
          \<lparr>fd_userAgent := Some ''Mozilla/5.0|en'', fd_acceptLanguage := Some ''US''\<rparr>)
       = fingerprint_text (example_fingerprint_data
          \<lparr>fd_userAgent := Some ''Mozilla/5.0'', fd_acceptLanguage := Some ''en|US''\<rparr>)"
  by (simp add: example_fingerprint_data_def fingerprint_text_def components_def or_empty_def)

theorem fingerprint_of_components_witness:
  "components example_fingerprint_data ! 1 \<noteq> components (example_fingerprint_data\<lparr>fd_acceptLanguage := Some ''de-DE''\<rparr>) ! 1
   \<and> fingerprint_text example_fingerprint_data
       \<noteq> fingerprint_text (example_fingerprint_data\<lparr>fd_acceptLanguage := Some ''de-DE''\<rparr>)
   \<and> generateFingerprint (\<lambda>text. text) example_fingerprint_data
       = generateFingerprint (\<lambda>text. text) (example_fingerprint_data\<lparr>fd_ipAddress := None\<rparr>)"
proof -
  let ?d2 = "example_fingerprint_data\<lparr>fd_acceptLanguage := Some ''de-DE''\<rparr>"
  have ne: "components example_fingerprint_data ! 1 \<noteq> components ?d2 ! 1"
    by (simp add: example_fingerprint_data_def components_def or_empty_def)
  have rest: "\<forall>j<8. j \<noteq> 1 \<longrightarrow> components example_fingerprint_data ! j = components ?d2 ! j"
    by (simp add: example_fingerprint_data_def components_def or_empty_def nth_Cons split: nat.splits)
  have same: "components example_fingerprint_data = components (example_fingerprint_data\<lparr>fd_ipAddress := None\<rparr>)"
    by (simp add: components_def)
  show ?thesis
    using fingerprint_of_components [of example_fingerprint_data ?d2 "\<lambda>text. text" 1]
      fingerprint_of_components [of example_fingerprint_data "example_fingerprint_data\<lparr>fd_ipAddress := None\<rparr>" "\<lambda>text. text" 1]
      ne rest same
    by simp
qed

section \<open>Verifying a challenge\<close>

subsection \<open>Steps of a call and steps of its environment\<close>


lemma find_Some_set: "find P xs = Some x \<Longrightarrow> x \<in> set xs \<and> P x"
  by (induction xs) (auto split: if_splits)

lemma find_distinct_key:
  assumes "distinct (map f xs)" "x \<in> set xs"
  shows "find (\<lambda>y. f y = f x) xs = Some x"
  using assms by (induction xs) (auto simp: image_iff)

lemma evolves_refl: "evolves t st st"
  by (simp add: evolves_def)


lemma evolves_step: "db_step t s1 s2 \<Longrightarrow> evolves t s1 s2"
  by (simp add: evolves_def)

text \<open>The requests of the model are changes of this kind: the deletion of an API
  key, a create call that draws another token, and every step of a verify call.\<close>

lemma delete_api_key_evolves: "evolves t st (delete_api_key cascade keyId userId st)"
proof (cases cascade)
  case True
  let ?gone = "filter (\<lambda>k. ak_id k = keyId \<and> ak_userId k = userId) (st_apiKeys st)"
  let ?s1 = "st\<lparr>st_challenges := filter (\<lambda>c. ch_siteKey c \<notin> set (map ak_siteKey ?gone)) (st_challenges st)\<rparr>"
  have 1: "db_step t st ?s1" by (rule db_step.removed)
  have 2: "db_step t ?s1 (delete_api_key cascade keyId userId st)"
    by (rule db_step.other) (simp add: delete_api_key_def Let_def True)
  show ?thesis using 1 2 by (auto simp: evolves_def)
next
  case False
  then show ?thesis
    by (intro evolves_step db_step.other) (simp add: delete_api_key_def Let_def)
qed

lemma create_handler_challenges:
  assumes "create_handler env rq st = (resp, st')"
  shows "st_challenges st' = st_challenges st
    \<or> (\<exists>c. ch_token c = ce_randomToken env \<and> st_challenges st' = st_challenges st @ [c])"
  using assms
  by (auto simp: create_handler_def create_scored_def Let_def new_challenge_def
      split: prod.splits option.splits if_splits)

lemma create_handler_evolves:
  assumes run: "create_handler env rq st = (resp, st')" and other: "ce_randomToken env \<noteq> t"
  shows "evolves t st st'"
proof -
  from create_handler_challenges [OF run] show ?thesis
  proof
    assume "st_challenges st' = st_challenges st"
    then have "db_step t st st'" by (rule db_step.other)
    then show ?thesis by (simp add: evolves_def)
  next
    assume "\<exists>c. ch_token c = ce_randomToken env \<and> st_challenges st' = st_challenges st @ [c]"
    then obtain c where c: "ch_token c = ce_randomToken env"
      "st_challenges st' = st_challenges st @ [c]" by blast
    have 1: "db_step t st (st\<lparr>st_challenges := st_challenges st @ [c]\<rparr>)"
      using c(1) other by (intro db_step.inserted) simp
    have 2: "db_step t (st\<lparr>st_challenges := st_challenges st @ [c]\<rparr>) st'"
      using c(2) by (intro db_step.other) simp
    show ?thesis using 1 2 by (auto simp: evolves_def)
  qed
qed

lemma verify_step_evolves: "evolves t st (snd (verify_step now rq g st))"
proof -
  have "db_step t st (snd (verify_step now rq g st))"
    by (cases g) (auto split: option.splits intro: db_step.intros)
  then show ?thesis by (simp add: evolves_def)
qed








text \<open>Run without interruption on a table with unique ids, the steps of a call are the
  handler in one piece.\<close>

lemma verify_rest_handler:
  assumes "distinct (map ch_id (st_challenges st))"
  shows "verify_rest now rq Start st
    = (Done (fst (verify_handler now rq st)), snd (verify_handler now rq st))"
proof (cases "find (\<lambda>c. ch_token c = vq_token rq) (st_challenges st)")
  case None
  then show ?thesis by (simp add: verify_rest_def verify_handler_def)
next
  case (Some c)
  from find_Some_set [OF Some] have "c \<in> set (st_challenges st)" by simp
  from find_distinct_key [OF assms this]
  have row: "find (\<lambda>row. ch_id row = ch_id c) (st_challenges st) = Some c" .
  show ?thesis
    using Some row
    by (simp add: verify_rest_def verify_handler_def verify_accept_def Let_def split: option.splits)
qed


subsection \<open>Single use\<close>


text \<open>
  C2, as amended. A verify call made strictly after \<open>expiresAt\<close> of the challenge that the
  token denotes always fails with status 400 and changes nothing: with
  \<open>Challenge expired\<close> when the challenge is not verified, and with
  \<open>Challenge already verified\<close> when it is, since the handler tests \<open>verified\<close> first.
\<close>

theorem verify_after_expiry:
  assumes "find (\<lambda>c. ch_token c = vq_token rq) (st_challenges st) = Some c"
    and "vq_token rq \<noteq> []" and "ch_expiresAt c < now"
  shows "verify_handler now rq st
    = (Verify_failed 400 (if ch_verified c then ''Challenge already verified''
                           else ''Challenge expired''), st)"
  using assms by (simp add: verify_handler_def)

subsection \<open>Fingerprint mismatch\<close>


subsection \<open>The browser's challenge\<close>

lemma example_issued_rows: "st_challenges example_issued = [example_challenge]"
  by code_simp

lemma example_issued_keys: "st_apiKeys example_issued = [example_key]"
  by code_simp

lemma example_found:
  "find (\<lambda>c. ch_token c = vq_token (example_verify fingerprint)) (st_challenges example_issued)
     = Some example_challenge"
  by (simp add: example_issued_rows example_verify_def example_challenge_def)




theorem verify_after_expiry_witness:
  "find (\<lambda>c. ch_token c = ''token-2'') (st_challenges example_issued) = Some example_challenge
   \<and> ch_expiresAt example_challenge < 1301000
   \<and> verify_handler 1301000 (example_verify (Some ''fp-2'')) example_issued
       = (Verify_failed 400 ''Challenge expired'', example_issued)"
proof -
  have facts: "vq_token (example_verify (Some ''fp-2'')) \<noteq> []"
    "ch_expiresAt example_challenge < 1301000" "\<not> ch_verified example_challenge"
    "vq_token (example_verify (Some ''fp-2'')) = ''token-2''"
    by (simp_all add: example_verify_def example_challenge_def)
  show ?thesis
    using verify_after_expiry [OF example_found facts(1,2)] example_found [of "Some ''fp-2''"] facts
    by simp
qed

text \<open>
  C2 as stated fails: a challenge that was verified in time and is presented again after
  its expiry is refused as already verified, not as expired.
\<close>

theorem verified_challenge_after_expiry_not_expired_error:
  "map ch_verified (st_challenges example_consumed) = [True]
   \<and> map ch_expiresAt (st_challenges example_consumed) = [1300000]
   \<and> fst (verify_handler 1301000 (example_verify (Some ''fp-2'')) example_consumed)
       = Verify_failed 400 ''Challenge already verified''
   \<and> fst (verify_handler 1301000 (example_verify (Some ''fp-2'')) example_consumed)
       \<noteq> Verify_failed 400 ''Challenge expired''"
  by code_simp



text \<open>
  Two calls that overlap: the second call reads the challenge before the first call's
  update, and resumes after the first call has finished. Both succeed, and the second
  call's update restores the score and the level that the first call had lowered.
\<close>

lemma overlapping_calls_both_succeed:
  "fst (verify_step 1000400 (example_verify None) Start example_issued) = Found example_challenge
   \<and> fst (verify_rest 1000500 (example_verify (Some ''fp-9'')) Start example_issued)
       = Done (Verify_ok \<lparr>vr_score = 70, vr_riskLevel = HIGH, vr_botScore = 0,
                 vr_vpnDetected = False, vr_proxyDetected = False, vr_torDetected = False,
                 vr_abuseScore = 25\<rparr>)
   \<and> map ch_score (st_challenges
        (snd (verify_rest 1000500 (example_verify (Some ''fp-9'')) Start example_issued))) = [70]
   \<and> fst (verify_rest 1000600 (example_verify None) (Found example_challenge)
        (snd (verify_rest 1000500 (example_verify (Some ''fp-9'')) Start example_issued)))
       = Done (Verify_ok \<lparr>vr_score = 90, vr_riskLevel = LOW, vr_botScore = 0,
                 vr_vpnDetected = False, vr_proxyDetected = False, vr_torDetected = False,
                 vr_abuseScore = 25\<rparr>)
   \<and> map ch_score (st_challenges
        (snd (verify_rest 1000600 (example_verify None) (Found example_challenge)
           (snd (verify_rest 1000500 (example_verify (Some ''fp-9'')) Start example_issued)))))
       = [90]
   \<and> map ch_riskLevel (st_challenges
        (snd (verify_rest 1000600 (example_verify None) (Found example_challenge)
           (snd (verify_rest 1000500 (example_verify (Some ''fp-9'')) Start example_issued)))))
       = [LOW]"
  by (simp add: verify_rest_def delete_api_key_def example_issued_rows example_issued_keys
      example_verify_def example_challenge_def example_key_def update_challenge_def
      mark_verified_def verify_body_def updatedScore_def updatedRiskLevel_def
      fingerprint_mismatch_def falsy_def or_empty_def)


section \<open>Abuse detection\<close>

lemma isBlacklisted_cached:
  assumes "(\<exists>item. as_flags st (''blacklist:ip:'' @ ip) = Some item \<and> \<not> expired now item)
         \<or> (\<exists>item. as_flags st (''blacklist:fp:'' @ fp) = Some item \<and> \<not> expired now item)"
  shows "fst (isBlacklisted now st ip fp)"
  using assms
  by (auto simp: isBlacklisted_def exists_key_def split: option.splits prod.splits if_splits)

lemma isBlacklisted_stored:
  assumes "e \<in> set (as_blacklist st)" "blacklist_match now ip fp e"
  shows "fst (isBlacklisted now st ip fp)"
proof -
  have "find (blacklist_match now ip fp) (as_blacklist st) \<noteq> None"
    using assms by (auto simp: find_None_iff)
  then show ?thesis
    by (auto simp: isBlacklisted_def split: prod.splits)
qed

lemma isBlacklisted_state:
  "as_counters (snd (isBlacklisted now st ip fp)) = as_counters st
   \<and> as_blacklist (snd (isBlacklisted now st ip fp)) = as_blacklist st
   \<and> as_abuseLogs (snd (isBlacklisted now st ip fp)) = as_abuseLogs st"
  by (auto simp: isBlacklisted_def split: prod.splits)

lemma detectAbusePatterns_blacklisted:
  assumes "fst (isBlacklisted now st ip fp)"
  shows "detectAbusePatterns now st ip fp siteKey
    = (\<lparr>ar_blocked = True, ar_reason = Some ''IP or fingerprint is blacklisted'',
        ar_severity = CRITICAL, ar_shouldChallenge = False\<rparr>, snd (isBlacklisted now st ip fp))"
  using assms by (simp add: detectAbusePatterns_def case_prod_beta)

text \<open>
  C8. The blacklist check comes first. When the cache holds a blacklist key for the
  address or for the fingerprint that has not expired, or, the cache having none, the
  table holds an entry for the address or the fingerprint that is permanent or expires in
  the future, \<open>detectAbusePatterns\<close> answers blocked with severity \<open>CRITICAL\<close>, and no later
  check has run: no counter has moved, nothing is logged, the table is as before. When
  the blacklist check, the two rate limits, the attack counter and the count of recent
  abuse, taken in this order, all stay quiet, the answer is not blocked, severity \<open>LOW\<close>,
  no challenge.
\<close>

theorem blacklist_first_and_default_low:
  "((\<exists>item. as_flags st (''blacklist:ip:'' @ ip) = Some item \<and> \<not> expired now item)
     \<or> (\<exists>item. as_flags st (''blacklist:fp:'' @ fp) = Some item \<and> \<not> expired now item)
     \<or> (\<exists>e \<in> set (as_blacklist st).
           ((bl_type e = IP \<and> bl_value e = ip) \<or> (bl_type e = FINGERPRINT \<and> bl_value e = fp))
           \<and> (bl_permanent e \<or> (\<exists>t. bl_expiresAt e = Some t \<and> now < t)))
     \<longrightarrow>
       fst (detectAbusePatterns now st ip fp siteKey)
         = \<lparr>ar_blocked = True, ar_reason = Some ''IP or fingerprint is blacklisted'',
            ar_severity = CRITICAL, ar_shouldChallenge = False\<rparr>
       \<and> as_counters (snd (detectAbusePatterns now st ip fp siteKey)) = as_counters st
       \<and> as_abuseLogs (snd (detectAbusePatterns now st ip fp siteKey)) = as_abuseLogs st
       \<and> as_blacklist (snd (detectAbusePatterns now st ip fp siteKey)) = as_blacklist st)
   \<and> ((let st1 = snd (isBlacklisted now st ip fp);
            ipRateLimit = checkRateLimit now (as_counters st1) (''ip:'' @ ip) 60 30;
            fpRateLimit = checkRateLimit now (snd ipRateLimit) (''fp:'' @ fp) 60 20;
            distributedAttack = detectDistributedAttack now (snd fpRateLimit)
               (case siteKey of None \<Rightarrow> ''global'' | Some k \<Rightarrow> if k = [] then ''global'' else k)
        in \<not> fst (isBlacklisted now st ip fp) \<and> \<not> rl_limited (fst ipRateLimit)
           \<and> \<not> rl_limited (fst fpRateLimit) \<and> \<not> fst (fst distributedAttack)
           \<and> getRecentAbuseCount now st ip 3600 \<le> 10)
       \<longrightarrow>
       fst (detectAbusePatterns now st ip fp siteKey)
         = \<lparr>ar_blocked = False, ar_reason = None, ar_severity = LOW, ar_shouldChallenge = False\<rparr>)"
proof (intro conjI impI)
  assume h: "(\<exists>item. as_flags st (''blacklist:ip:'' @ ip) = Some item \<and> \<not> expired now item)
     \<or> (\<exists>item. as_flags st (''blacklist:fp:'' @ fp) = Some item \<and> \<not> expired now item)
     \<or> (\<exists>e \<in> set (as_blacklist st).
           ((bl_type e = IP \<and> bl_value e = ip) \<or> (bl_type e = FINGERPRINT \<and> bl_value e = fp))
           \<and> (bl_permanent e \<or> (\<exists>t. bl_expiresAt e = Some t \<and> now < t)))"
  have b: "fst (isBlacklisted now st ip fp)"
  proof (cases "\<exists>e \<in> set (as_blacklist st).
           ((bl_type e = IP \<and> bl_value e = ip) \<or> (bl_type e = FINGERPRINT \<and> bl_value e = fp))
           \<and> (bl_permanent e \<or> (\<exists>t. bl_expiresAt e = Some t \<and> now < t))")
    case True
    then obtain e where "e \<in> set (as_blacklist st)" "blacklist_match now ip fp e"
      by (auto simp: blacklist_match_def)
    then show ?thesis by (rule isBlacklisted_stored)
  next
    case False
    with h show ?thesis by (intro isBlacklisted_cached) blast
  qed
  show "fst (detectAbusePatterns now st ip fp siteKey)
         = \<lparr>ar_blocked = True, ar_reason = Some ''IP or fingerprint is blacklisted'',
            ar_severity = CRITICAL, ar_shouldChallenge = False\<rparr>"
    and "as_counters (snd (detectAbusePatterns now st ip fp siteKey)) = as_counters st"
    and "as_abuseLogs (snd (detectAbusePatterns now st ip fp siteKey)) = as_abuseLogs st"
    and "as_blacklist (snd (detectAbusePatterns now st ip fp siteKey)) = as_blacklist st"
    by (simp_all add: detectAbusePatterns_blacklisted [OF b] isBlacklisted_state)
next
  assume h: "let st1 = snd (isBlacklisted now st ip fp);
            ipRateLimit = checkRateLimit now (as_counters st1) (''ip:'' @ ip) 60 30;
            fpRateLimit = checkRateLimit now (snd ipRateLimit) (''fp:'' @ fp) 60 20;
            distributedAttack = detectDistributedAttack now (snd fpRateLimit)
               (case siteKey of None \<Rightarrow> ''global'' | Some k \<Rightarrow> if k = [] then ''global'' else k)
        in \<not> fst (isBlacklisted now st ip fp) \<and> \<not> rl_limited (fst ipRateLimit)
           \<and> \<not> rl_limited (fst fpRateLimit) \<and> \<not> fst (fst distributedAttack)
           \<and> getRecentAbuseCount now st ip 3600 \<le> 10"
  have logs: "getRecentAbuseCount now (s\<lparr>as_counters := c\<rparr>) ip 3600 = getRecentAbuseCount now s ip 3600" for s c
    by (simp add: getRecentAbuseCount_def)
  have logs0: "getRecentAbuseCount now (snd (isBlacklisted now st ip fp)) ip 3600 = getRecentAbuseCount now st ip 3600"
    by (simp add: getRecentAbuseCount_def isBlacklisted_state)
  from h show "fst (detectAbusePatterns now st ip fp siteKey)
         = \<lparr>ar_blocked = False, ar_reason = None, ar_severity = LOW, ar_shouldChallenge = False\<rparr>"
    by (simp add: detectAbusePatterns_def ip_rate_check_def fingerprint_rate_check_def
        distributed_attack_check_def recent_abuse_check_def Let_def logs logs0
        case_prod_beta)
qed


theorem blacklist_first_and_default_low_witness:
  "as_flags example_banned = Map.empty
   \<and> (\<exists>e \<in> set (as_blacklist example_banned). bl_type e = IP \<and> bl_value e = ''203.0.113.7''
          \<and> bl_permanent e)
   \<and> fst (detectAbusePatterns 1000000 example_banned ''203.0.113.7'' ''fp-1'' (Some ''pk_1''))
       = \<lparr>ar_blocked = True, ar_reason = Some ''IP or fingerprint is blacklisted'',
          ar_severity = CRITICAL, ar_shouldChallenge = False\<rparr>
   \<and> as_counters (snd (detectAbusePatterns 1000000 example_banned ''203.0.113.7'' ''fp-1''
                          (Some ''pk_1''))) = Map.empty
   \<and> fst (detectAbusePatterns 1000000 (st_abuse example_state) ''203.0.113.7'' ''fp-1''
             (Some ''pk_1''))
       = \<lparr>ar_blocked = False, ar_reason = None, ar_severity = LOW, ar_shouldChallenge = False\<rparr>"
proof -
  have banned: "\<exists>e \<in> set (as_blacklist example_banned).
      ((bl_type e = IP \<and> bl_value e = ''203.0.113.7'')
        \<or> (bl_type e = FINGERPRINT \<and> bl_value e = ''fp-1''))
      \<and> (bl_permanent e \<or> (\<exists>t. bl_expiresAt e = Some t \<and> 1000000 < t))"
    by (simp add: example_banned_def)
  have quiet: "let st1 = snd (isBlacklisted 1000000 (st_abuse example_state) ''203.0.113.7'' ''fp-1'');
            ipRateLimit = checkRateLimit 1000000 (as_counters st1) (''ip:'' @ ''203.0.113.7'') 60 30;
            fpRateLimit = checkRateLimit 1000000 (snd ipRateLimit) (''fp:'' @ ''fp-1'') 60 20;
            distributedAttack = detectDistributedAttack 1000000 (snd fpRateLimit)
               (case Some ''pk_1'' of None \<Rightarrow> ''global'' | Some k \<Rightarrow> if k = [] then ''global'' else k)
        in \<not> fst (isBlacklisted 1000000 (st_abuse example_state) ''203.0.113.7'' ''fp-1'')
           \<and> \<not> rl_limited (fst ipRateLimit)
           \<and> \<not> rl_limited (fst fpRateLimit) \<and> \<not> fst (fst distributedAttack)
           \<and> getRecentAbuseCount 1000000 (st_abuse example_state) ''203.0.113.7'' 3600 \<le> 10"
    by code_simp
  have empty: "as_flags example_banned = Map.empty" "as_counters example_banned = Map.empty"
    by (simp_all add: example_banned_def)
  have entry: "\<exists>e \<in> set (as_blacklist example_banned). bl_type e = IP
      \<and> bl_value e = ''203.0.113.7'' \<and> bl_permanent e"
    by (simp add: example_banned_def)
  note blocked = blacklist_first_and_default_low [of example_banned "''203.0.113.7''" 1000000
      "''fp-1''" "Some ''pk_1''", THEN conjunct1, THEN mp, OF disjI2 [OF disjI2 [OF banned]]]
  note calm = blacklist_first_and_default_low [of "st_abuse example_state" "''203.0.113.7''"
      1000000 "''fp-1''" "Some ''pk_1''", THEN conjunct2, THEN mp, OF quiet]
  show ?thesis
    using blocked calm empty entry by simp
qed

section \<open>Rate limiting under overlapping requests\<close>

lemma same_bucket_close:
  assumes "0 < w" "time_bucket w t = time_bucket w t'"
  shows "t \<le> t' + w * 1000"
proof -
  let ?x = "(of_int t :: rat) / 1000 / of_int w" and ?y = "(of_int t' :: rat) / 1000 / of_int w"
  have "?x < of_int \<lfloor>?x\<rfloor> + 1" by linarith
  also have "\<dots> = of_int \<lfloor>?y\<rfloor> + 1" using assms(2) by (simp add: time_bucket_def)
  also have "\<dots> \<le> ?y + 1" by simp
  finally have "?x < ?y + 1" .
  moreover have "(0::rat) < of_int w" using assms(1) by simp
  ultimately have "(of_int t :: rat) < of_int t' + of_int w * 1000"
    by (simp add: field_simps)
  then have "(of_int t :: rat) < of_int (t' + w * 1000)" by simp
  then have "t < t' + w * 1000" by (simp only: of_int_less_iff)
  then show ?thesis by simp
qed

lemma key_of_bucket:
  "time_bucket w t = b \<Longrightarrow> rate_limit_key t ident w = ''ratelimit:'' @ ident @ '':'' @ show_int b"
  by (simp add: rate_limit_key_def)

lemma step_call:
  assumes inv: "settled w m b key s P" and new: "r \<notin> set P"
    and t: "time_bucket w t = b" and key: "key = ''ratelimit:'' @ ident @ '':'' @ show_int b"
  defines "s1 \<equiv> rl_step ident w m s (Call r t)"
  shows "settled w m b key s1 (r # P)"
    and "counter_value (rr_counters s1) key = counter_value (rr_counters s) key + 1"
    and "currents s1 (r # P) = add_mset (counter_value (rr_counters s) key + 1) (currents s P)"
    and "map fst (rr_reports s1) = map fst (rr_reports s)"
proof -
  have k: "rate_limit_key t ident w = key" using t key by (simp add: key_of_bucket)
  have s1: "s1 = s\<lparr>rr_counters := snd (incr (rr_counters s) key),
                   rr_pending := (rr_pending s)(r \<mapsto> (key, fst (incr (rr_counters s) key)))\<rparr>"
    by (simp add: s1_def checkRateLimit_incr_def k Let_def case_prod_beta)
  have v: "fst (incr (rr_counters s) key) = counter_value (rr_counters s) key + 1"
    by (simp add: incr_def counter_value_def Let_def)
  have item: "snd (incr (rr_counters s) key) key = Some item \<Longrightarrow>
      ci_expiry item = (case rr_counters s key of None \<Rightarrow> None | Some old \<Rightarrow> ci_expiry old)" for item
    by (auto simp: incr_def Let_def)
  have safe: "\<not> expired t' item"
    if "snd (incr (rr_counters s) key) key = Some item" "time_bucket w t' = b" for item t'
  proof (cases "rr_counters s key")
    case None
    with item [OF that(1)] show ?thesis by (simp add: expired_def)
  next
    case (Some old)
    with inv that(2) have "\<not> expired t' old" by (simp add: settled_def)
    with item [OF that(1)] Some show ?thesis by (simp add: expired_def)
  qed
  show "settled w m b key s1 (r # P)"
    using inv new safe by (auto simp: settled_def s1)
  show "counter_value (rr_counters s1) key = counter_value (rr_counters s) key + 1"
    by (simp add: s1 counter_value_def incr_def Let_def)
  have rep: "rr_reports s1 = rr_reports s"
    and pr: "rr_pending s1 r = Some (key, counter_value (rr_counters s) key + 1)"
    and po: "\<And>q. q \<in> set P \<Longrightarrow> rr_pending s1 q = rr_pending s q"
    using new by (auto simp: s1 v)
  have "mset (map (\<lambda>q. snd (the (rr_pending s1 q))) P)
      = mset (map (\<lambda>q. snd (the (rr_pending s q))) P)"
    by (rule arg_cong [where f = mset], intro map_cong) (simp_all add: po)
  then show "currents s1 (r # P) = add_mset (counter_value (rr_counters s) key + 1) (currents s P)"
    by (simp add: currents_def rep pr)
  show "map fst (rr_reports s1) = map fst (rr_reports s)" by (simp add: s1)
qed

lemma mset_map_removeAll:
  "distinct P \<Longrightarrow> r \<in> set P \<Longrightarrow> mset (map f P) = add_mset (f r) (mset (map f (removeAll r P)))"
  by (induction P) auto

lemma step_resume:
  fixes ident :: string
  assumes inv: "settled w m b key s P" and old: "r \<in> set P"
    and t: "time_bucket w t = b" and w: "0 < w"
  defines "s1 \<equiv> rl_step ident w m s (Resume r t)"
  shows "settled w m b key s1 (removeAll r P)"
    and "counter_value (rr_counters s1) key = counter_value (rr_counters s) key"
    and "currents s1 (removeAll r P) = currents s P"
    and "map fst (rr_reports s1) = map fst (rr_reports s) @ [r]"
proof -
  from inv old obtain cur where p: "rr_pending s r = Some (key, cur)"
    by (auto simp: settled_def dom_def set_eq_iff) (metis fst_conv option.sel)
  let ?res = "\<lparr>rl_limited = cur > m, rl_current = cur, rl_remaining = max 0 (m - cur)\<rparr>"
  have s1: "s1 = s\<lparr>rr_counters := expire t (rr_counters s) key w,
                   rr_pending := (rr_pending s)(r := None),
                   rr_reports := rr_reports s @ [(r, ?res)]\<rparr>"
    by (simp add: s1_def p checkRateLimit_expire_def)
  have safe: "\<not> expired t' item"
    if "expire t (rr_counters s) key w key = Some item" "time_bucket w t' = b" for item t'
  proof (cases "rr_counters s key")
    case None
    with that(1) show ?thesis by (simp add: expire_def)
  next
    case (Some old)
    with that(1) have "ci_expiry item = Some (t + w * 1000)" by (auto simp: expire_def)
    moreover have "t' \<le> t + w * 1000" using same_bucket_close [OF w, of t' t] that(2) t by simp
    ultimately show ?thesis by (simp add: expired_def)
  qed
  show "settled w m b key s1 (removeAll r P)"
    using inv safe by (auto simp: settled_def s1 distinct_removeAll)
  show "counter_value (rr_counters s1) key = counter_value (rr_counters s) key"
    by (simp add: s1 counter_value_def expire_def split: option.splits)
  have d: "distinct P" using inv by (simp add: settled_def)
  have rep: "rr_reports s1 = rr_reports s @ [(r, ?res)]"
    and po: "\<And>q. q \<in> set (removeAll r P) \<Longrightarrow> rr_pending s1 q = rr_pending s q"
    by (auto simp: s1)
  have "mset (map (\<lambda>q. snd (the (rr_pending s1 q))) (removeAll r P))
      = mset (map (\<lambda>q. snd (the (rr_pending s q))) (removeAll r P))"
    by (rule arg_cong [where f = mset], intro map_cong) (simp_all add: po)
  then show "currents s1 (removeAll r P) = currents s P"
    using mset_map_removeAll [OF d old, of "\<lambda>q. snd (the (rr_pending s q))"]
    by (simp add: currents_def rep p)
  show "map fst (rr_reports s1) = map fst (rr_reports s) @ [r]" by (simp add: s1)
qed

lemma step_cleanup:
  fixes ident :: string
  assumes inv: "settled w m b key s P" and t: "time_bucket w t = b"
  defines "s1 \<equiv> rl_step ident w m s (Cleanup t)"
  shows "settled w m b key s1 P"
    and "counter_value (rr_counters s1) key = counter_value (rr_counters s) key"
    and "currents s1 P = currents s P"
    and "map fst (rr_reports s1) = map fst (rr_reports s)"
proof -
  have keep: "cleanup t (rr_counters s) key = rr_counters s key"
    using inv t by (auto simp: cleanup_def settled_def split: option.splits)
  show "settled w m b key s1 P"
    using inv by (simp add: settled_def s1_def keep)
  show "counter_value (rr_counters s1) key = counter_value (rr_counters s) key"
    by (simp add: s1_def counter_value_def keep)
  show "currents s1 P = currents s P" by (simp add: currents_def s1_def)
  show "map fst (rr_reports s1) = map fst (rr_reports s)" by (simp add: s1_def)
qed

lemma shifted_upt:
  "mset (map (\<lambda>i. c + 1 + int i) [0..<Suc n])
     = add_mset (c + 1) (mset (map (\<lambda>i. c + 1 + 1 + int i) [0..<n]))"
proof -
  have "[0..<Suc n] = 0 # map Suc [0..<n]"
    by (simp add: upt_conv_Cons map_Suc_upt del: upt_Suc)
  then have "map (\<lambda>i. c + 1 + int i) [0..<Suc n]
      = (c + 1) # map (\<lambda>i. c + 1 + 1 + int i) [0..<n]"
    by (simp add: comp_def add.assoc del: upt_Suc)
  then show ?thesis by (simp del: upt_Suc)
qed

lemma run_events:
  fixes ident :: string
  assumes w: "0 < w" and key: "key = ''ratelimit:'' @ ident @ '':'' @ show_int b"
  shows "\<lbrakk>\<forall>e \<in> set evs. time_bucket w (event_time e) = b; whole_requests P S evs;
          set P \<subseteq> set S; settled w m b key s P\<rbrakk> \<Longrightarrow>
     settled w m b key (rl_run_events ident w m s evs) []
     \<and> mset (map (\<lambda>p. rl_current (snd p)) (rr_reports (rl_run_events ident w m s evs)))
         = currents s P
           + mset (map (\<lambda>i. counter_value (rr_counters s) key + 1 + int i) [0..<length (calls evs)])
     \<and> mset (map fst (rr_reports (rl_run_events ident w m s evs)))
         = mset (map fst (rr_reports s)) + mset P + mset (calls evs)"
proof (induction evs arbitrary: s P S)
  case Nil
  then show ?case by (simp add: rl_run_events_def currents_def)
next
  case (Cons e evs)
  have rest: "\<forall>e \<in> set evs. time_bucket w (event_time e) = b" using Cons.prems(1) by simp
  define s1 where "s1 = rl_step ident w m s e"
  have run: "rl_run_events ident w m s (e # evs) = rl_run_events ident w m s1 evs"
    by (simp add: rl_run_events_def s1_def)
  show ?case
  proof (cases e)
    case (Call r t)
    have t: "time_bucket w t = b" using Cons.prems(1) Call by simp
    have new: "r \<notin> set P" and wr: "whole_requests (r # P) (r # S) evs"
      using Cons.prems(2,3) Call by auto
    note step = step_call [OF Cons.prems(4) new t key, folded Call s1_def]
    have sub: "set (r # P) \<subseteq> set (r # S)" using Cons.prems(3) by auto
    have c: "calls (e # evs) = r # calls evs" by (simp add: Call)
    from Cons.IH [OF rest wr sub step(1)] show ?thesis
      unfolding run c
      by (simp add: step(2,3) shifted_upt mset_map [symmetric] step(4) s1_def
          del: upt_Suc mset_map)
  next
    case (Resume r t)
    have t: "time_bucket w t = b" using Cons.prems(1) Resume by simp
    have old: "r \<in> set P" and wr: "whole_requests (removeAll r P) S evs"
      using Cons.prems(2) Resume by auto
    note step = step_resume [OF Cons.prems(4) old t w, folded Resume s1_def]
    have sub: "set (removeAll r P) \<subseteq> set S" using Cons.prems(3) by auto
    have d: "distinct P" using Cons.prems(4) by (simp add: settled_def)
    have P: "mset P = add_mset r (mset (removeAll r P))"
      using mset_map_removeAll [OF d old, of "\<lambda>x. x"] by simp
    have c: "calls (e # evs) = calls evs" by (simp add: Resume)
    from Cons.IH [OF rest wr sub step(1)] show ?thesis
      unfolding run c
      by (simp add: step(2,3) mset_map [symmetric] step(4) s1_def del: mset_map) (simp add: P)
  next
    case (Cleanup t)
    have t: "time_bucket w t = b" using Cons.prems(1) Cleanup by simp
    have wr: "whole_requests P S evs" using Cons.prems(2) Cleanup by simp
    note step = step_cleanup [OF Cons.prems(4) t, folded Cleanup s1_def]
    have c: "calls (e # evs) = calls evs" by (simp add: Cleanup)
    from Cons.IH [OF rest wr Cons.prems(3) step(1)] show ?thesis
      unfolding run c
      by (simp add: step(2,3) mset_map [symmetric] step(4) s1_def del: mset_map)
  qed
qed

lemma filter_below: "k \<le> n \<Longrightarrow> filter (\<lambda>i. i < k) [0..<n] = [0..<k]"
  by (induction n) (auto simp: le_Suc_eq)

lemma count_allowed:
  assumes "0 \<le> m" "nat m \<le> n"
  shows "length (filter (\<lambda>c. \<not> m < c) (map (\<lambda>i. 1 + int i) [0..<n])) = nat m"
proof -
  have "filter (\<lambda>i. \<not> m < 1 + int i) [0..<n] = filter (\<lambda>i. i < nat m) [0..<n]"
    using assms(1) by (intro filter_cong) auto
  then show ?thesis
    using filter_below [OF assms(2)] by (simp add: filter_map comp_def)
qed

text \<open>
  C9, as amended. Take any schedule of whole \<open>checkRateLimit\<close> requests for one identifier,
  interleaved in any way with each other and with the cache's timer, whose events all lie
  in one fixed window of the clock (the same value of
  \<open>Math.floor(Date.now() / 1000 / windowSeconds)\<close>), the counter of that window being absent
  at the start. If there are more requests than the maximum, every request gets one
  report, exactly \<open>maxRequests\<close> reports are not limited and all others are limited: no
  increment is lost.
\<close>

theorem rate_limit_counts_in_one_bucket:
  assumes w: "0 < windowSeconds" and m: "0 \<le> maxRequests"
    and whole: "whole_requests [] [] evs"
    and bucket: "\<forall>e \<in> set evs. time_bucket windowSeconds (event_time e) = b"
    and absent: "c0 (''ratelimit:'' @ identifier @ '':'' @ show_int b) = None"
    and many: "nat maxRequests < length (calls evs)"
    and reports: "reports = rr_reports (rl_run_events identifier windowSeconds maxRequests
        \<lparr>rr_counters = c0, rr_pending = Map.empty, rr_reports = []\<rparr> evs)"
  shows "mset (map fst reports) = mset (calls evs)
    \<and> length (filter (\<lambda>p. \<not> rl_limited (snd p)) reports) = nat maxRequests
    \<and> length (filter (\<lambda>p. rl_limited (snd p)) reports) = length (calls evs) - nat maxRequests"
proof -
  let ?key = "''ratelimit:'' @ identifier @ '':'' @ show_int b"
  let ?s0 = "\<lparr>rr_counters = c0, rr_pending = Map.empty, rr_reports = []\<rparr>"
  let ?n = "length (calls evs)"
  have init: "settled windowSeconds maxRequests b ?key ?s0 []"
    using absent by (simp add: settled_def)
  have zero: "counter_value (rr_counters ?s0) ?key = 0"
    using absent by (simp add: counter_value_def)
  from run_events [OF w refl bucket whole _ init]
  have fin: "settled windowSeconds maxRequests b ?key
               (rl_run_events identifier windowSeconds maxRequests ?s0 evs) []"
    and cur: "mset (map (\<lambda>p. rl_current (snd p)) reports)
               = mset (map (\<lambda>i. 1 + int i) [0..<?n])"
    and ids: "mset (map fst reports) = mset (calls evs)"
    unfolding reports zero by (simp_all add: currents_def)
  have flag: "rl_limited (snd p) \<longleftrightarrow> maxRequests < rl_current (snd p)" if "p \<in> set reports" for p
    using fin that by (simp add: settled_def reports)
  have "length (filter (\<lambda>p. \<not> rl_limited (snd p)) reports)
      = length (filter (\<lambda>p. \<not> maxRequests < rl_current (snd p)) reports)"
    by (rule arg_cong [where f = length], rule filter_cong) (simp_all add: flag)
  also have "\<dots> = length (filter (\<lambda>c. \<not> maxRequests < c) (map (\<lambda>p. rl_current (snd p)) reports))"
    by (simp add: filter_map comp_def)
  also have "\<dots> = size (filter_mset (\<lambda>c. \<not> maxRequests < c)
                        (mset (map (\<lambda>p. rl_current (snd p)) reports)))"
    by (simp only: mset_filter [symmetric] size_mset)
  also have "\<dots> = length (filter (\<lambda>c. \<not> maxRequests < c) (map (\<lambda>i. 1 + int i) [0..<?n]))"
    unfolding cur by (simp only: mset_filter [symmetric] size_mset)
  also have "\<dots> = nat maxRequests"
    using count_allowed [OF m, of ?n] many by simp
  finally have allowed: "length (filter (\<lambda>p. \<not> rl_limited (snd p)) reports) = nat maxRequests" .
  have "length reports = ?n"
    using arg_cong [OF ids, of size] by simp
  moreover have "length (filter (\<lambda>p. rl_limited (snd p)) reports)
      + length (filter (\<lambda>p. \<not> rl_limited (snd p)) reports) = length reports"
    by (rule sum_length_filter_compl)
  ultimately have "length (filter (\<lambda>p. rl_limited (snd p)) reports) = ?n - nat maxRequests"
    using allowed by simp
  with ids allowed show ?thesis by simp
qed

lemma example_burst_whole: "whole_requests [] [] example_burst"
  by code_simp

lemma example_burst_bucket: "\<forall>e \<in> set example_burst. time_bucket 60 (event_time e) = 1"
  by code_simp

lemma example_burst_calls: "calls example_burst = [0..<31]"
  by code_simp

lemma example_burst_times: "remdups (map (time_bucket 60 \<circ> event_time) example_burst) = [1]"
  by code_simp

theorem rate_limit_counts_in_one_bucket_witness:
  "whole_requests [] [] example_burst
   \<and> remdups (map (time_bucket 60 \<circ> event_time) example_burst) = [1]
   \<and> length (calls example_burst) = 31
   \<and> length (filter (\<lambda>p. \<not> rl_limited (snd p))
        (rr_reports (rl_run_events ''ip:203.0.113.7'' 60 30 fresh_run example_burst))) = 30
   \<and> length (filter (\<lambda>p. rl_limited (snd p))
        (rr_reports (rl_run_events ''ip:203.0.113.7'' 60 30 fresh_run example_burst))) = 1"
proof -
  have many: "nat 30 < length (calls example_burst)" by (simp add: example_burst_calls)
  show ?thesis
    using rate_limit_counts_in_one_bucket [of 60 30 example_burst 1 Map.empty "''ip:203.0.113.7''",
        OF _ _ example_burst_whole example_burst_bucket _ many refl]
      example_burst_whole example_burst_times
    by (simp add: fresh_run_def example_burst_calls)
qed

text \<open>
  C9 as stated fails for a sliding window: the windows are fixed, and thirty-one requests
  for one address made within one millisecond, thirty just before a window ends and one
  just after, are all reported as allowed.
\<close>

theorem rate_limit_across_bucket_boundary:
  "calls example_straddling = [0..<31]
   \<and> remdups (map event_time example_straddling) = [59999, 60000]
   \<and> map (rl_limited \<circ> snd)
        (rr_reports (rl_run_events ''ip:203.0.113.7'' 60 30 fresh_run example_straddling))
       = replicate 31 False"
  by code_simp

section \<open>Properties of the standalone risk score\<close>








end
